theory Spec2Isabelle
  imports Complex_Main "HOL-Library.Word" "HOL-Library.Sublist"
begin

unbundle bit_operations_syntax

section \<open>The Humminbird codec of gpsbabel (humminbird.cc)\<close>

text \<open>
  A shallow embedding of the reader and the writer of \<^verbatim>\<open>humminbird.cc\<close>. Machine integers
  are words of their width, every \<^verbatim>\<open>fatal\<close> of the source is an error value, and an access
  outside an array (undefined behaviour in C++) is the error value \<open>Out_of_bounds\<close>, so
  that it shows in the result instead of hiding behind HOL's total list functions.

  The projection between the integer pair (east, north) and longitude/latitude is floating
  point (\<^verbatim>\<open>gudermannian_i1924\<close>, \<^verbatim>\<open>geocentric_to_geodetic_hwr\<close> and their inverses). A
  waypoint of the model carries the int32 pair itself; the latitude and longitude the
  source stores in the waypoint on the read path are the projection of that pair
  (\<open>wpt_position\<close> below, over the reals), and on the write path the pair is the
  \<^verbatim>\<open>qRound\<close> of the projected position.
\<close>

subsection \<open>Constants\<close>

type_synonym byte = "8 word"
type_synonym uint16 = "16 word"
type_synonym uint32 = "32 word"
type_synonym int32 = "32 word"

definition WPT_NAME_LEN :: nat where "WPT_NAME_LEN = 12"
definition RTE_NAME_LEN :: nat where "RTE_NAME_LEN = 20"
definition TRK_NAME_LEN :: nat where "TRK_NAME_LEN = 20"
definition MAX_RTE_POINTS :: nat where "MAX_RTE_POINTS = 50"

definition TRK_MAGIC :: uint32 where "TRK_MAGIC = 0x01030000"
definition TRK_MAGIC2 :: uint32 where "TRK_MAGIC2 = 0x01021F70"
definition WPT_MAGIC :: uint32 where "WPT_MAGIC = 0x02020024"
definition WPT_MAGIC2 :: uint32 where "WPT_MAGIC2 = 0x02030024"
definition RTE_MAGIC :: uint32 where "RTE_MAGIC = 0x03030088"

text \<open>
  The sizes of the structs, from their field lists. Every field is naturally aligned, so
  there is no padding. The signature is not a member of any of them (it is commented out
  in each struct), so the track header is 64 bytes, 68 with the signature before it.
\<close>

definition sizeof_waypt :: nat where
  "sizeof_waypt = 2 + 2 + 1 + 1 + 2 + 4 + 4 + 4 + WPT_NAME_LEN"

definition sizeof_rte :: nat where
  "sizeof_rte = 2 + 2 + 1 + 1 + 1 + 1 + 4 + RTE_NAME_LEN + 2 * MAX_RTE_POINTS"

definition sizeof_trk_header :: nat where
  "sizeof_trk_header = 2 + 2 + 2 + 2 + 4 + 4 + 4 + 4 + 4 + 4 + 4 + 4 + 4 + 20"

definition sizeof_trk_point :: nat where
  "sizeof_trk_point = 2 + 2 + 2"

definition sizeof_trk_header_old :: nat where
  "sizeof_trk_header_old = 2 + 2 + 2 + 2 + 4 + 4 + 4 + 4 + 4"

definition sizeof_trk_point_old :: nat where
  "sizeof_trk_point_old = 2 + 2"

definition sizeof_uint32 :: nat where
  "sizeof_uint32 = 4"

text \<open>\<^verbatim>\<open>int max_points = (131080 - sizeof(uint32_t) - sizeof(th)) / sizeof(humminbird_trk_point_t)\<close>\<close>

definition max_points :: nat where
  "max_points = (131080 - sizeof_uint32 - sizeof_trk_header) div sizeof_trk_point"

text \<open>\<^verbatim>\<open>(file_len - (sizeof(th) + sizeof(uint32_t) + TRK_NAME_LEN)) / sizeof(humminbird_trk_point_old_t)\<close>\<close>

definition file_len :: nat where "file_len = 8048"

definition max_points_old :: nat where
  "max_points_old =
     (file_len - (sizeof_trk_header_old + sizeof_uint32 + TRK_NAME_LEN)) div sizeof_trk_point_old"

subsection \<open>Errors\<close>

datatype error =
    Unexpected_eof                 \<comment> \<open>fatal: Unexpected end of file!\<close>
  | Unexpected_eof_header          \<comment> \<open>fatal: Unexpected end of file reading header!\<close>
  | Unexpected_eof_points          \<comment> \<open>fatal: Unexpected end of file reading points!\<close>
  | Too_many_track_points nat      \<comment> \<open>fatal: Too many track points! (%d)\<close>
  | Invalid_record_header uint32   \<comment> \<open>fatal: Invalid record header\<close>
  | Route_limit                    \<comment> \<open>fatal: routes are limited to 50 points\<close>
  | Out_of_bounds nat              \<comment> \<open>no fatal of the source: an array accessed at this index,
                                       outside its bounds\<close>

subsection \<open>The byte stream\<close>

record gbfile =
  contents :: "byte list"
  pos :: nat

definition avail :: "gbfile \<Rightarrow> byte list" where
  "avail f = drop (pos f) (contents f)"

text \<open>
  Modelled from the spec: \<^verbatim>\<open>gbfread\<close>, \<^verbatim>\<open>gbfeof\<close>, \<^verbatim>\<open>gbfseek\<close> and \<^verbatim>\<open>gbfgetuint32\<close> are the
  buffered sequential and seekable byte stream the spec lists as an external collaborator
  (read, seek, end-of-file query); their code is not part of this file. \<open>gbfread sz
  members\<close> has the contract of C's \<^verbatim>\<open>fread\<close>: it takes up to \<open>sz * members\<close> bytes, returns
  the number of whole members taken (0 when \<open>sz\<close> or \<open>members\<close> is 0) and the bytes, and
  advances the position past them.
\<close>

definition gbfread :: "nat \<Rightarrow> nat \<Rightarrow> gbfile \<Rightarrow> nat \<times> byte list \<times> gbfile" where
  "gbfread sz members f =
     (if sz = 0 \<or> members = 0 then (0, [], f)
      else let got = take (sz * members) (avail f)
           in (length got div sz, got, f\<lparr>pos := pos f + length got\<rparr>))"

definition gbfeof :: "gbfile \<Rightarrow> bool" where
  "gbfeof f = (length (contents f) \<le> pos f)"

definition gbfseek :: "gbfile \<Rightarrow> nat \<Rightarrow> gbfile" where
  "gbfseek f offset = f\<lparr>pos := offset\<rparr>"

text \<open>What \<^verbatim>\<open>gbfread\<close> leaves in a buffer: the bytes taken over its start, the rest as it was.\<close>

definition fill_buffer :: "byte list \<Rightarrow> byte list \<Rightarrow> byte list" where
  "fill_buffer buf got = got @ drop (length got) buf"

text \<open>
  Modelled from the spec: \<^verbatim>\<open>be_read16\<close> and \<^verbatim>\<open>be_read32\<close> (defs.h) read a big-endian field;
  here at an offset of a byte buffer.
\<close>

definition be_read16 :: "byte list \<Rightarrow> nat \<Rightarrow> uint16" where
  "be_read16 b off = push_bit 8 (ucast (b ! off)) OR ucast (b ! (off + 1))"

definition be_read32 :: "byte list \<Rightarrow> nat \<Rightarrow> uint32" where
  "be_read32 b off =
     push_bit 24 (ucast (b ! off)) OR push_bit 16 (ucast (b ! (off + 1))) OR
     push_bit 8 (ucast (b ! (off + 2))) OR ucast (b ! (off + 3))"

text \<open>
  Modelled from the spec: a 4-byte big-endian magic is read (the stream is opened with
  \<^verbatim>\<open>gbfopen_be\<close>); a truncated read is fatal.
\<close>

definition gbfgetuint32 :: "gbfile \<Rightarrow> error + (uint32 \<times> gbfile)" where
  "gbfgetuint32 f =
     (if length (avail f) < 4 then Inl Unexpected_eof
      else Inr (be_read32 (avail f) 0, f\<lparr>pos := pos f + 4\<rparr>))"

text \<open>\<^verbatim>\<open>QByteArray(name, qstrnlen(name, sizeof(name)))\<close>: the bytes before the first NUL.\<close>

definition cstring :: "byte list \<Rightarrow> byte list" where
  "cstring b = takeWhile (\<lambda>c. c \<noteq> 0) b"

subsection \<open>Waypoints, routes and the reader's state\<close>

record waypoint =
  shortname :: "byte list"
  creation_time :: "uint32 option"
  east :: int32
  north :: int32
  depth_cm :: "uint16 option"   \<comment> \<open>\<^verbatim>\<open>set_depth(depth / 100.0)\<close>, kept in centimetres\<close>
  icon_descr :: "string option"

record route_head =
  rte_name :: "byte list"
  rte_num :: uint16
  waypoint_list :: "waypoint list"

record reader =
  waypts :: "waypoint list"                        \<comment> \<open>\<^verbatim>\<open>waypt_add\<close>\<close>
  routes :: "route_head list"                      \<comment> \<open>\<^verbatim>\<open>route_add_head\<close>, \<^verbatim>\<open>route_add_wpt\<close>\<close>
  tracks :: "route_head list"                      \<comment> \<open>\<^verbatim>\<open>track_add_head\<close>, \<^verbatim>\<open>track_add_wpt\<close>\<close>
  wpt_num_to_wpt_hash :: "uint16 \<rightharpoonup> waypoint"
  warnings :: "string list"                        \<comment> \<open>every \<^verbatim>\<open>warning\<close> call, in order\<close>

subsection \<open>The projection\<close>

text \<open>
  The four projection functions of the source, with \<^verbatim>\<open>double\<close> read as the real numbers
  (rounding is not modelled) and \<^verbatim>\<open>std::numbers::inv_pi\<close> as \<open>1 / pi\<close>.

  Modelled from the spec: the constants \<^verbatim>\<open>cos2_ae\<close>, \<^verbatim>\<open>i1924_equ_axis\<close> and \<^verbatim>\<open>EAST_SCALE\<close>
  are declared in \<^verbatim>\<open>humminbird.h\<close>; they are fixed real constants (the spec's equatorial-axis
  constant \<open>A\<close> and its fixed scale constant) and are parameters here.
\<close>

definition geodetic_to_geocentric_hwr :: "real \<Rightarrow> real \<Rightarrow> real" where
  "geodetic_to_geocentric_hwr cos2_ae gd_lat =
     (let gdr = gd_lat * pi / 180 in arctan (cos2_ae * tan gdr) * 180 * (1 / pi))"



definition inverse_gudermannian_i1924 :: "real \<Rightarrow> real \<Rightarrow> real" where
  "inverse_gudermannian_i1924 i1924_equ_axis x =
     (let x_r = x / 180 * pi; guder = ln (tan (pi / 4 + x_r / 2)) in guder * i1924_equ_axis)"




subsection \<open>Reading a waypoint\<close>

record humminbird_waypt_t =
  w_num :: uint16
  w_zero :: uint16
  w_status :: byte
  w_icon :: byte
  w_depth :: uint16
  w_time :: uint32
  w_east :: int32
  w_north :: int32
  w_name :: "byte list"

definition parse_waypt :: "byte list \<Rightarrow> humminbird_waypt_t" where
  "parse_waypt b =
     \<lparr>w_num = be_read16 b 0, w_zero = be_read16 b 2, w_status = b ! 4, w_icon = b ! 5,
      w_depth = be_read16 b 6, w_time = be_read32 b 8, w_east = be_read32 b 12,
      w_north = be_read32 b 16, w_name = take WPT_NAME_LEN (drop 20 b)\<rparr>"

text \<open>The waypoint built from the record, before the status decides whether it is kept.\<close>

definition waypt_of :: "string list \<Rightarrow> humminbird_waypt_t \<Rightarrow> waypoint" where
  "waypt_of humminbird_icons w =
     \<lparr>shortname = cstring (w_name w),
      creation_time = Some (w_time w),
      east = w_east w,
      north = w_north w,
      depth_cm = (if w_depth w \<noteq> 0 then Some (w_depth w) else None),
      icon_descr = (if unat (w_icon w) < length humminbird_icons
                    then Some (humminbird_icons ! unat (w_icon w)) else None)\<rparr>"

definition humminbird_read_wpt ::
  "string list \<Rightarrow> gbfile \<Rightarrow> reader \<Rightarrow> error + (gbfile \<times> reader)" where
  "humminbird_read_wpt humminbird_icons fin st =
     (case gbfread 1 sizeof_waypt fin of (k, got, fin') \<Rightarrow>
        if k = 0 then Inl Unexpected_eof
        else
          let w = parse_waypt (fill_buffer (replicate sizeof_waypt 0) got);
              wpt = waypt_of humminbird_icons w
          in if w_status w = 0 then Inr (fin', st)
             else if w_status w = 1 \<or> w_status w = 2 \<or> w_status w = 3 then
               Inr (fin', st\<lparr>waypts := waypts st @ [wpt],
                             wpt_num_to_wpt_hash := (wpt_num_to_wpt_hash st)(w_num w \<mapsto> wpt)\<rparr>)
             else Inr (fin', st))"

subsection \<open>Example inputs\<close>

definition reader0 :: reader where
  "reader0 = \<lparr>waypts = [], routes = [], tracks = [], wpt_num_to_wpt_hash = Map.empty,
               warnings = []\<rparr>"

text \<open>A waypoint record (without its magic): number 7, status 2, icon 1, name AB.\<close>

definition ex_wpt_file :: gbfile where
  "ex_wpt_file =
     \<lparr>contents = [0,7, 0,0, 2, 1, 0,0, 0,0,0,9, 0,0,1,0, 0,0,2,0,
                  65,66,0,0, 0,0,0,0, 0,0,0,0],
      pos = 0\<rparr>"

subsection \<open>Reading a route\<close>

text \<open>
  The fields of \<^verbatim>\<open>humminbird_rte_t\<close> the reader uses. \<open>r_count\<close> is the \<^verbatim>\<open>int8_t count\<close>
  (read with \<open>sint\<close>); \<open>r_points\<close> holds the 100 bytes of \<^verbatim>\<open>uint16_t points[50]\<close> as they
  are in the file, entry \<open>i\<close> at bytes \<open>2 * i\<close> and \<open>2 * i + 1\<close>.
\<close>

record humminbird_rte_t =
  r_num :: uint16
  r_count :: byte
  r_time :: uint32
  r_name :: "byte list"
  r_points :: "byte list"

definition parse_rte :: "byte list \<Rightarrow> humminbird_rte_t" where
  "parse_rte b =
     \<lparr>r_num = be_read16 b 0, r_count = b ! 7, r_time = be_read32 b 8,
      r_name = take RTE_NAME_LEN (drop 12 b), r_points = drop 32 b\<rparr>"

text \<open>
  \<^verbatim>\<open>route_add_wpt(rte, new Waypoint(*wpt))\<close>, after the route head has been made (and
  named) at the first point that resolves. A new \<^verbatim>\<open>route_head\<close> has the number 0.
\<close>

definition route_add_wpt ::
  "humminbird_rte_t \<Rightarrow> route_head option \<Rightarrow> waypoint \<Rightarrow> route_head" where
  "route_add_wpt hrte rte wpt =
     (case rte of
        None \<Rightarrow> \<lparr>rte_name = cstring (r_name hrte), rte_num = 0, waypoint_list = [wpt]\<rparr>
      | Some r \<Rightarrow> r\<lparr>waypoint_list := waypoint_list r @ [wpt]\<rparr>)"

text \<open>
  The loop \<^verbatim>\<open>for (int i = 0; i < hrte.count; i++)\<close>. The source reads \<^verbatim>\<open>hrte.points[i]\<close>
  with no check of \<open>i\<close> against \<^verbatim>\<open>MAX_RTE_POINTS\<close>; the model makes the read outside the
  array the result \<open>Out_of_bounds i\<close>. The loop calls no \<^verbatim>\<open>warning\<close>.
\<close>

function read_route_loop ::
  "humminbird_rte_t \<Rightarrow> (uint16 \<rightharpoonup> waypoint) \<Rightarrow> nat \<Rightarrow> route_head option \<Rightarrow>
   error + route_head option" where
  "read_route_loop hrte hash i rte =
     (if int i < sint (r_count hrte) then
        if MAX_RTE_POINTS \<le> i then Inl (Out_of_bounds i)
        else (case hash (be_read16 (r_points hrte) (2 * i)) of
                None \<Rightarrow> read_route_loop hrte hash (i + 1) rte
              | Some wpt \<Rightarrow>
                  read_route_loop hrte hash (i + 1) (Some (route_add_wpt hrte rte wpt)))
      else Inr rte)"
  by pat_completeness auto
termination
  by (relation "measure (\<lambda>(hrte, hash, i, rte). nat (sint (r_count hrte)) - i)") auto

definition humminbird_read_route :: "gbfile \<Rightarrow> reader \<Rightarrow> error + (gbfile \<times> reader)" where
  "humminbird_read_route fin st =
     (case gbfread 1 sizeof_rte fin of (k, got, fin') \<Rightarrow>
        if k = 0 then Inl Unexpected_eof
        else
          let hrte = parse_rte (fill_buffer (replicate sizeof_rte 0) got)
          in if 0 < sint (r_count hrte) then
               (case read_route_loop hrte (wpt_num_to_wpt_hash st) 0 None of
                  Inl e \<Rightarrow> Inl e
                | Inr None \<Rightarrow> Inr (fin', st)
                | Inr (Some rte) \<Rightarrow> Inr (fin', st\<lparr>routes := routes st @ [rte]\<rparr>))
             else Inr (fin', st))"

text \<open>
  For the statements about routes: the waypoints the index holds for the point numbers
  \<open>i, \<dots>, n - 1\<close> of the record, in the record's order, and a route after they are added.
\<close>

definition resolved_points ::
  "humminbird_rte_t \<Rightarrow> (uint16 \<rightharpoonup> waypoint) \<Rightarrow> nat \<Rightarrow> nat \<Rightarrow> waypoint list" where
  "resolved_points hrte hash i n =
     List.map_filter (\<lambda>k. hash (be_read16 (r_points hrte) (2 * k))) [i..<n]"

definition after_points ::
  "humminbird_rte_t \<Rightarrow> route_head option \<Rightarrow> waypoint list \<Rightarrow> route_head option" where
  "after_points hrte rte ws =
     (if ws = [] then rte
      else Some (case rte of
        None \<Rightarrow> \<lparr>rte_name = cstring (r_name hrte), rte_num = 0, waypoint_list = ws\<rparr>
      | Some r \<Rightarrow> r\<lparr>waypoint_list := waypoint_list r @ ws\<rparr>))"

text \<open>
  A route record (without its magic) named R, with count 3 and the point numbers 5, 99, 7,
  read when the index holds the waypoints 5 and 7 only; and one with count 51.
\<close>

definition ex_wpt5 :: waypoint where
  "ex_wpt5 = \<lparr>shortname = [65], creation_time = Some 1, east = 10, north = 20,
              depth_cm = None, icon_descr = None\<rparr>"

definition ex_wpt7 :: waypoint where
  "ex_wpt7 = \<lparr>shortname = [66], creation_time = Some 2, east = 30, north = 40,
              depth_cm = None, icon_descr = None\<rparr>"

definition ex_reader :: reader where
  "ex_reader = reader0\<lparr>waypts := [ex_wpt5, ex_wpt7],
                       wpt_num_to_wpt_hash := [5 \<mapsto> ex_wpt5, 7 \<mapsto> ex_wpt7]\<rparr>"

definition ex_rte_file :: gbfile where
  "ex_rte_file =
     \<lparr>contents = [0,1, 0,0, 1, 0, 0, 3, 0,0,0,0] @ [82] @ replicate 19 0 @
                 [0,5, 0,99, 0,7] @ replicate 94 0,
      pos = 0\<rparr>"

definition ex_rte_file51 :: gbfile where
  "ex_rte_file51 =
     \<lparr>contents = [0,1, 0,0, 1, 0, 0, 51, 0,0,0,0] @ [82] @ replicate 19 0 @ replicate 100 0,
      pos = 0\<rparr>"

subsection \<open>Reading a track (new format)\<close>

record humminbird_trk_header_t =
  trk_num :: uint16
  num_points :: uint16
  trk_time :: uint32
  start_east :: int32
  start_north :: int32
  end_east :: int32
  end_north :: int32
  sw_east :: int32
  sw_north :: int32
  ne_east :: int32
  ne_north :: int32
  trk_name :: "byte list"

record humminbird_trk_point_t =
  deltaeast :: "16 word"
  deltanorth :: "16 word"
  depth :: uint16

definition parse_trk_header :: "byte list \<Rightarrow> humminbird_trk_header_t" where
  "parse_trk_header b =
     \<lparr>trk_num = be_read16 b 0, num_points = be_read16 b 4, trk_time = be_read32 b 8,
      start_east = be_read32 b 12, start_north = be_read32 b 16,
      end_east = be_read32 b 20, end_north = be_read32 b 24,
      sw_east = be_read32 b 28, sw_north = be_read32 b 32,
      ne_east = be_read32 b 36, ne_north = be_read32 b 40,
      trk_name = take 20 (drop 44 b)\<rparr>"

text \<open>
  The point array. The source keeps the file's bytes in the array and converts entry \<open>i\<close>
  in place when the loop reaches it (\<^verbatim>\<open>be_read16\<close>); the lookahead reads entry \<open>i + 1\<close>
  through \<^verbatim>\<open>be_read16\<close> without storing. The model holds every field by the value
  \<^verbatim>\<open>be_read16\<close> gives for it. The one value the loop stores into an entry not yet converted
  is 0, which is the same bytes in either byte order (the source's comment: BE 0 == LE 0).
\<close>

definition parse_points :: "byte list \<Rightarrow> nat \<Rightarrow> humminbird_trk_point_t list" where
  "parse_points b n =
     map (\<lambda>i. \<lparr>deltaeast = be_read16 b (6 * i), deltanorth = be_read16 b (6 * i + 2),
                depth = be_read16 b (6 * i + 4)\<rparr>) [0..<n]"

text \<open>A \<^verbatim>\<open>new Waypoint\<close> of a track, at the accumulated position.\<close>

definition track_wpt :: "int32 \<Rightarrow> int32 \<Rightarrow> uint16 option \<Rightarrow> uint32 option \<Rightarrow> waypoint" where
  "track_wpt e n d t =
     \<lparr>shortname = [], creation_time = t, east = e, north = n, depth_cm = d,
      icon_descr = None\<rparr>"

text \<open>
  The loop \<^verbatim>\<open>for (int i = 0; i < th.num_points-1; i++)\<close> with the freak-value filter. The
  accumulators are \<^verbatim>\<open>int32_t\<close>; the sum wraps around.
\<close>

function read_track_loop ::
  "humminbird_trk_header_t \<Rightarrow> nat \<Rightarrow> humminbird_trk_point_t list \<Rightarrow> int32 \<Rightarrow> int32 \<Rightarrow>
   waypoint list \<Rightarrow> error + waypoint list" where
  "read_track_loop th i points accum_east accum_north trk =
     (if int i < int (unat (num_points th)) - 1 then
        if length points \<le> i + 1 then Inl (Out_of_bounds (i + 1))
        else
          let next_deltaeast = deltaeast (points ! (i + 1));
              points1 =
                (if deltaeast (points ! i) = 32767 \<and> next_deltaeast = - 32768
                 then points[i := (points ! i)\<lparr>deltaeast := - 1\<rparr>,
                             i + 1 := (points ! (i + 1))\<lparr>deltaeast := 0\<rparr>]
                 else points);
              next_deltanorth = deltanorth (points1 ! (i + 1));
              points2 =
                (if deltanorth (points1 ! i) = 32767 \<and> next_deltanorth = - 32768
                 then points1[i := (points1 ! i)\<lparr>deltanorth := - 1\<rparr>,
                              i + 1 := (points1 ! (i + 1))\<lparr>deltanorth := 0\<rparr>]
                 else points1);
              accum_east' = accum_east + scast (deltaeast (points2 ! i));
              accum_north' = accum_north + scast (deltanorth (points2 ! i));
              wpt = track_wpt accum_east' accum_north'
                      (if depth (points2 ! i) \<noteq> 0 then Some (depth (points2 ! i)) else None)
                      (if int i = int (unat (num_points th)) - 2 \<and> trk_time th \<noteq> 0
                       then Some (trk_time th) else None)
          in read_track_loop th (i + 1) points2 accum_east' accum_north' (trk @ [wpt])
      else Inr trk)"
  by pat_completeness auto
termination
  by (relation "measure (\<lambda>(th, i, points, ae, an, trk). nat (uint (num_points th) - int i))")
    auto

text \<open>
  \<^verbatim>\<open>humminbird_read_track\<close>. The count passed to \<^verbatim>\<open>gbfread\<close> is the int
  \<^verbatim>\<open>th.num_points-1\<close> converted to the unsigned count type (32 bits here): for a stored
  count of 0 it is the largest count, and whatever the stream still holds is then written
  over the empty array.
\<close>

definition humminbird_read_track :: "gbfile \<Rightarrow> reader \<Rightarrow> error + (gbfile \<times> reader)" where
  "humminbird_read_track fin st =
     (case gbfread 1 sizeof_trk_header fin of (k, got, fin1) \<Rightarrow>
        if k = 0 then Inl Unexpected_eof_header
        else
          let th0 = parse_trk_header (fill_buffer (replicate sizeof_trk_header 0) got);
              th = (if unat (num_points th0) = max_points + 1
                    then th0\<lparr>num_points := num_points th0 - 1\<rparr> else th0);
              n = unat (num_points th)
          in if max_points < n then Inl (Too_many_track_points n)
             else
               let buf = replicate (sizeof_trk_point * n) 0;
                   members = nat ((int n - 1) mod 2 ^ 32)
               in (case gbfread sizeof_trk_point members fin1 of (k2, got2, fin2) \<Rightarrow>
                     if length buf < length got2 then Inl (Out_of_bounds n)
                     else if k2 = 0 then Inl Unexpected_eof_points
                     else
                       let points = parse_points (fill_buffer buf got2) n;
                           first_wpt = track_wpt (start_east th) (start_north th) None None
                       in (case read_track_loop th 0 points (start_east th) (start_north th)
                                  [first_wpt] of
                             Inl e \<Rightarrow> Inl e
                           | Inr wpts \<Rightarrow>
                               Inr (fin2,
                                    st\<lparr>tracks := tracks st @
                                         [\<lparr>rte_name = cstring (trk_name th),
                                           rte_num = trk_num th,
                                           waypoint_list = wpts\<rparr>]\<rparr>))))"

text \<open>
  For the statements about the filter, over the deltas as the file has them: a freak pair
  at \<open>k\<close>, the delta the loop adds at \<open>k\<close>, and the running sum of the file's own deltas.
\<close>

definition freak_east :: "humminbird_trk_point_t list \<Rightarrow> nat \<Rightarrow> bool" where
  "freak_east raw k = (deltaeast (raw ! k) = 32767 \<and> deltaeast (raw ! (k + 1)) = - 32768)"

definition freak_north :: "humminbird_trk_point_t list \<Rightarrow> nat \<Rightarrow> bool" where
  "freak_north raw k = (deltanorth (raw ! k) = 32767 \<and> deltanorth (raw ! (k + 1)) = - 32768)"

definition filtered_east :: "humminbird_trk_point_t list \<Rightarrow> nat \<Rightarrow> 16 word" where
  "filtered_east raw k =
     (if freak_east raw k then - 1
      else if 0 < k \<and> freak_east raw (k - 1) then 0
      else deltaeast (raw ! k))"

definition filtered_north :: "humminbird_trk_point_t list \<Rightarrow> nat \<Rightarrow> 16 word" where
  "filtered_north raw k =
     (if freak_north raw k then - 1
      else if 0 < k \<and> freak_north raw (k - 1) then 0
      else deltanorth (raw ! k))"

definition naive_east :: "int32 \<Rightarrow> humminbird_trk_point_t list \<Rightarrow> nat \<Rightarrow> int32" where
  "naive_east start raw k = start + sum_list (map (\<lambda>j. scast (deltaeast (raw ! j))) [0..<k + 1])"

definition naive_north :: "int32 \<Rightarrow> humminbird_trk_point_t list \<Rightarrow> nat \<Rightarrow> int32" where
  "naive_north start raw k = start + sum_list (map (\<lambda>j. scast (deltanorth (raw ! j))) [0..<k + 1])"

subsection \<open>Reading a track: what the loop computes\<close>

text \<open>
  Used to state and prove what \<open>read_track_loop\<close> returns: the waypoints of the records
  \<open>i, \<dots>, i + m - 1\<close> when the delta added at each record is the filtered one; the state of
  the array when the loop reaches record \<open>i\<close> (the records after \<open>i\<close> as in the file, record
  \<open>i\<close> with a delta zeroed where a freak pair started at \<open>i - 1\<close>); the two rewrites of one
  iteration; and the adjustment of a stored count of \<open>max_points + 1\<close>.
\<close>

fun track_wpts ::
  "humminbird_trk_header_t \<Rightarrow> humminbird_trk_point_t list \<Rightarrow> nat \<Rightarrow> nat \<Rightarrow> int32 \<Rightarrow> int32 \<Rightarrow>
   waypoint list" where
  "track_wpts th raw i 0 ae an = []"
| "track_wpts th raw i (Suc m) ae an =
     track_wpt (ae + scast (filtered_east raw i)) (an + scast (filtered_north raw i))
       (if depth (raw ! i) \<noteq> 0 then Some (depth (raw ! i)) else None)
       (if int i = int (unat (num_points th)) - 2 \<and> trk_time th \<noteq> 0
        then Some (trk_time th) else None)
     # track_wpts th raw (i + 1) m (ae + scast (filtered_east raw i))
         (an + scast (filtered_north raw i))"

definition filter_inv ::
  "humminbird_trk_point_t list \<Rightarrow> humminbird_trk_point_t list \<Rightarrow> nat \<Rightarrow> bool" where
  "filter_inv cur raw i =
     (length cur = length raw \<and> (\<forall>j. i < j \<longrightarrow> cur ! j = raw ! j) \<and>
      deltaeast (cur ! i) = (if 0 < i \<and> freak_east raw (i - 1) then 0 else deltaeast (raw ! i)) \<and>
      deltanorth (cur ! i) = (if 0 < i \<and> freak_north raw (i - 1) then 0 else deltanorth (raw ! i)) \<and>
      depth (cur ! i) = depth (raw ! i))"

definition filter_step_east :: "humminbird_trk_point_t list \<Rightarrow> nat \<Rightarrow> humminbird_trk_point_t list" where
  "filter_step_east points i =
     (if deltaeast (points ! i) = 32767 \<and> deltaeast (points ! (i + 1)) = - 32768
      then points[i := (points ! i)\<lparr>deltaeast := - 1\<rparr>,
                  i + 1 := (points ! (i + 1))\<lparr>deltaeast := 0\<rparr>]
      else points)"

definition filter_step_north :: "humminbird_trk_point_t list \<Rightarrow> nat \<Rightarrow> humminbird_trk_point_t list" where
  "filter_step_north points i =
     (if deltanorth (points ! i) = 32767 \<and> deltanorth (points ! (i + 1)) = - 32768
      then points[i := (points ! i)\<lparr>deltanorth := - 1\<rparr>,
                  i + 1 := (points ! (i + 1))\<lparr>deltanorth := 0\<rparr>]
      else points)"

definition adjust_num_points :: "humminbird_trk_header_t \<Rightarrow> humminbird_trk_header_t" where
  "adjust_num_points th0 =
     (if unat (num_points th0) = max_points + 1 then th0\<lparr>num_points := num_points th0 - 1\<rparr>
      else th0)"

text \<open>
  Track files: a 64-byte header (track 1, start (100, 200), name T) with the stored point
  count in bytes 4 and 5, and a body. \<open>ex_freak_file\<close> holds 4 points, with a freak pair on
  the east axis at the records 0 and 1 and one on the north axis at 1 and 2;
  \<open>ex_freak_points\<close> is its point array as read. The other two store the counts 21836
  (with all its 21834 body records) and 65535.
\<close>

definition ex_trk_header :: "byte \<Rightarrow> byte \<Rightarrow> byte list" where
  "ex_trk_header hi lo =
     [0,1, 0,0, hi,lo, 0,0, 0,0,0,0, 0,0,0,100, 0,0,0,200] @ replicate 24 0 @
     [84] @ replicate 19 0"

definition ex_freak_file :: gbfile where
  "ex_freak_file =
     \<lparr>contents = ex_trk_header 0 4 @
        [127,255, 0,5, 0,0,  128,0, 127,255, 0,0,  0,0, 128,0, 0,0],
      pos = 0\<rparr>"

definition ex_freak_points :: "humminbird_trk_point_t list" where
  "ex_freak_points =
     [\<lparr>deltaeast = 32767, deltanorth = 5, depth = 0\<rparr>,
      \<lparr>deltaeast = - 32768, deltanorth = 32767, depth = 0\<rparr>,
      \<lparr>deltaeast = 0, deltanorth = - 32768, depth = 0\<rparr>,
      \<lparr>deltaeast = 0, deltanorth = 0, depth = 0\<rparr>]"

definition ex_trk_file_21836 :: gbfile where
  "ex_trk_file_21836 = \<lparr>contents = ex_trk_header 85 76 @ replicate 131004 0, pos = 0\<rparr>"

definition ex_trk_file_65535 :: gbfile where
  "ex_trk_file_65535 = \<lparr>contents = ex_trk_header 255 255, pos = 0\<rparr>"

subsection \<open>Reading a track (old format)\<close>

record humminbird_trk_header_old_t =
  old_trk_num :: uint16
  old_num_points :: uint16
  old_time :: uint32
  old_start_east :: int32
  old_start_north :: int32
  old_end_east :: int32
  old_end_north :: int32

record humminbird_trk_point_old_t =
  old_deltaeast :: "16 word"
  old_deltanorth :: "16 word"

definition parse_trk_header_old :: "byte list \<Rightarrow> humminbird_trk_header_old_t" where
  "parse_trk_header_old b =
     \<lparr>old_trk_num = be_read16 b 0, old_num_points = be_read16 b 4, old_time = be_read32 b 8,
      old_start_east = be_read32 b 12, old_start_north = be_read32 b 16,
      old_end_east = be_read32 b 20, old_end_north = be_read32 b 24\<rparr>"

definition parse_points_old :: "byte list \<Rightarrow> nat \<Rightarrow> humminbird_trk_point_old_t list" where
  "parse_points_old b n =
     map (\<lambda>i. \<lparr>old_deltaeast = be_read16 b (4 * i), old_deltanorth = be_read16 b (4 * i + 2)\<rparr>)
       [0..<n]"

text \<open>
  The loop of \<^verbatim>\<open>humminbird_read_track_old\<close>: the freak-value filter is commented out in the
  source, so only \<^verbatim>\<open>points[i]\<close> is read, and no depth is set.
\<close>

function read_track_old_loop ::
  "humminbird_trk_header_old_t \<Rightarrow> nat \<Rightarrow> humminbird_trk_point_old_t list \<Rightarrow> int32 \<Rightarrow> int32 \<Rightarrow>
   waypoint list \<Rightarrow> error + waypoint list" where
  "read_track_old_loop th i points accum_east accum_north trk =
     (if int i < int (unat (old_num_points th)) - 1 then
        if length points \<le> i then Inl (Out_of_bounds i)
        else
          let accum_east' = accum_east + scast (old_deltaeast (points ! i));
              accum_north' = accum_north + scast (old_deltanorth (points ! i));
              wpt = track_wpt accum_east' accum_north' None
                      (if int i = int (unat (old_num_points th)) - 2 \<and> old_time th \<noteq> 0
                       then Some (old_time th) else None)
          in read_track_old_loop th (i + 1) points accum_east' accum_north' (trk @ [wpt])
      else Inr trk)"
  by pat_completeness auto
termination
  by (relation "measure (\<lambda>(th, i, points, ae, an, trk). nat (uint (old_num_points th) - int i))")
    auto

text \<open>
  \<^verbatim>\<open>humminbird_read_track_old\<close>. \<open>namebuf\<close> is the content of the local \<^verbatim>\<open>char namebuf[20]\<close>
  before the read, which the source does not initialise; \<^verbatim>\<open>gbfseek(fin, file_len -
  TRK_NAME_LEN, SEEK_SET)\<close> sets the position from the start of the file, and the result of
  the read of the name is not checked.
\<close>

definition humminbird_read_track_old ::
  "byte list \<Rightarrow> gbfile \<Rightarrow> reader \<Rightarrow> error + (gbfile \<times> reader)" where
  "humminbird_read_track_old namebuf fin st =
     (case gbfread 1 sizeof_trk_header_old fin of (k, got, fin1) \<Rightarrow>
        if k = 0 then Inl Unexpected_eof_header
        else
          let th = parse_trk_header_old (fill_buffer (replicate sizeof_trk_header_old 0) got);
              n = unat (old_num_points th)
          in if max_points_old < n then Inl (Too_many_track_points n)
             else
               let buf = replicate (sizeof_trk_point_old * n) 0;
                   members = nat ((int n - 1) mod 2 ^ 32)
               in (case gbfread sizeof_trk_point_old members fin1 of (k2, got2, fin2) \<Rightarrow>
                     if length buf < length got2 then Inl (Out_of_bounds n)
                     else if k2 = 0 then Inl Unexpected_eof_points
                     else
                       let points = parse_points_old (fill_buffer buf got2) n;
                           fin3 = gbfseek fin2 (file_len - TRK_NAME_LEN)
                       in (case gbfread 1 TRK_NAME_LEN fin3 of (k3, got3, fin4) \<Rightarrow>
                             let name = cstring (fill_buffer namebuf got3);
                                 first_wpt = track_wpt (old_start_east th) (old_start_north th)
                                               None None
                             in (case read_track_old_loop th 0 points (old_start_east th)
                                        (old_start_north th) [first_wpt] of
                                   Inl e \<Rightarrow> Inl e
                                 | Inr wpts \<Rightarrow>
                                     Inr (fin4,
                                          st\<lparr>tracks := tracks st @
                                               [\<lparr>rte_name = name, rte_num = old_trk_num th,
                                                 waypoint_list = wpts\<rparr>]\<rparr>)))))"





subsection \<open>The read dispatcher\<close>

text \<open>
  \<^verbatim>\<open>humminbird_read\<close>: the loop \<^verbatim>\<open>while (! gbfeof(fin_))\<close> over the signatures. Each record
  reader moves the position forward, so the loop ends.
\<close>

function humminbird_read ::
  "string list \<Rightarrow> byte list \<Rightarrow> gbfile \<Rightarrow> reader \<Rightarrow> error + (gbfile \<times> reader)" where
  "humminbird_read humminbird_icons namebuf fin st =
     (if gbfeof fin then Inr (fin, st)
      else
        (case gbfgetuint32 fin of
           Inl e \<Rightarrow> Inl e
         | Inr (signature, fin1) \<Rightarrow>
             if signature = WPT_MAGIC \<or> signature = WPT_MAGIC2 then
               (case humminbird_read_wpt humminbird_icons fin1 st of
                  Inl e \<Rightarrow> Inl e
                | Inr (fin2, st2) \<Rightarrow> humminbird_read humminbird_icons namebuf fin2 st2)
             else if signature = RTE_MAGIC then
               (case humminbird_read_route fin1 st of
                  Inl e \<Rightarrow> Inl e
                | Inr (fin2, st2) \<Rightarrow> humminbird_read humminbird_icons namebuf fin2 st2)
             else if signature = TRK_MAGIC then humminbird_read_track fin1 st
             else if signature = TRK_MAGIC2 then humminbird_read_track_old namebuf fin1 st
             else Inl (Invalid_record_header signature)))"
  by pat_completeness auto
termination
proof (relation "measure (\<lambda>(icons, namebuf, fin, st). length (contents fin) - pos fin)",
    goal_cases)
  case 1
  show ?case by simp
next
  case (2 icons namebuf fin st x2 signature fin1 x2a fin2 st2)
  then show ?case
    by (auto simp add: gbfeof_def gbfgetuint32_def humminbird_read_wpt_def gbfread_def Let_def
        split: if_splits)
next
  case (3 icons namebuf fin st x2 signature fin1 x2a fin2 st2)
  then show ?case
    by (auto simp add: gbfeof_def gbfgetuint32_def humminbird_read_route_def gbfread_def Let_def
        simp del: read_route_loop.simps split: if_splits sum.splits option.splits)
qed

text \<open>
  An old-format file of 8048 bytes: the magic, the 28-byte header (track 2, 3 points, start
  (100, 200)), the two records (32767, 5) and (-32768, 7), zeroes, and the name OLD in
  the last 20 bytes. The position is after the magic.
\<close>

definition ex_old_file :: gbfile where
  "ex_old_file =
     \<lparr>contents = [1,2,31,112] @
        [0,2, 0,0, 0,3, 0,0, 0,0,0,0, 0,0,0,100, 0,0,0,200, 0,0,0,0, 0,0,0,0] @
        [127,255, 0,5,  128,0, 0,7] @ replicate 7988 0 @ [79,76,68] @ replicate 17 0,
      pos = 4\<rparr>"

text \<open>
  Streams for the dispatcher: an empty one; one that starts with the signature 0; a
  waypoint record, then the new-format track of \<open>ex_freak_file\<close>, then four bytes 0xFF;
  and the route record of \<open>ex_rte_file\<close> with its magic.
\<close>

definition ex_empty_file :: gbfile where
  "ex_empty_file = \<lparr>contents = [], pos = 0\<rparr>"

definition ex_bad_file :: gbfile where
  "ex_bad_file = \<lparr>contents = [0,0,0,0, 1,2,3], pos = 0\<rparr>"

definition ex_hwr_records :: "byte list" where
  "ex_hwr_records =
     [2,2,0,36] @
     [0,7, 0,0, 2, 1, 0,0, 0,0,0,9, 0,0,1,0, 0,0,2,0, 65,66,0,0, 0,0,0,0, 0,0,0,0] @
     [1,3,0,0] @ ex_trk_header 0 4 @
     [127,255, 0,5, 0,0,  128,0, 127,255, 0,0,  0,0, 128,0, 0,0]"

definition ex_hwr_file :: gbfile where
  "ex_hwr_file = \<lparr>contents = ex_hwr_records @ [255,255,255,255], pos = 0\<rparr>"

definition ex_hwr_wpt :: waypoint where
  "ex_hwr_wpt = \<lparr>shortname = [65, 66], creation_time = Some 9, east = 256, north = 512,
                 depth_cm = None, icon_descr = Some ''House''\<rparr>"

definition ex_rte_hwr_file :: gbfile where
  "ex_rte_hwr_file = \<lparr>contents = [3,3,0,136] @ contents ex_rte_file, pos = 0\<rparr>"

subsection \<open>Writing: big-endian fields and names\<close>

text \<open>
  Modelled from the spec: \<^verbatim>\<open>be_write16\<close>, \<^verbatim>\<open>be_write32\<close>, \<^verbatim>\<open>gbfputuint16\<close> and
  \<^verbatim>\<open>gbfputuint32\<close> (defs.h, gbfile) store a value big-endian. The writer's structs hold
  the stored bytes; the model holds the values and turns them into bytes when the record
  is written.
\<close>

definition be_write16 :: "uint16 \<Rightarrow> byte list" where
  "be_write16 v = [ucast (drop_bit 8 v), ucast v]"

definition be_write32 :: "uint32 \<Rightarrow> byte list" where
  "be_write32 v = [ucast (drop_bit 24 v), ucast (drop_bit 16 v), ucast (drop_bit 8 v), ucast v]"

text \<open>\<^verbatim>\<open>strncpy(field, CSTR(name), sizeof(field)-1)\<close> into a zeroed field of \<open>n\<close> bytes.\<close>

definition strncpy_field :: "nat \<Rightarrow> byte list \<Rightarrow> byte list" where
  "strncpy_field n name =
     take (n - 1) (cstring name) @ replicate (n - length (take (n - 1) (cstring name))) 0"

subsection \<open>Writing a waypoint: the icon\<close>

text \<open>
  \<^verbatim>\<open>Qt::CaseInsensitive\<close> comparison and containment, over 8-bit strings with the case
  folding of the ASCII letters (Qt folds all of Unicode).
\<close>

definition fold_case :: "char \<Rightarrow> char" where
  "fold_case c =
     (if 65 \<le> (of_char c :: nat) \<and> (of_char c :: nat) \<le> 90
      then (case c of Char b0 b1 b2 b3 b4 b5 b6 b7 \<Rightarrow> Char b0 b1 b2 b3 b4 True b6 b7)
      else c)"

text \<open>\<^verbatim>\<open>!a.compare(b, Qt::CaseInsensitive)\<close>\<close>

definition compare_ci :: "string \<Rightarrow> string \<Rightarrow> bool" where
  "compare_ci a b = (map fold_case a = map fold_case b)"

fun contains :: "string \<Rightarrow> string \<Rightarrow> bool" where
  "contains [] n = (n = [])"
| "contains (h # hs) n = (prefix n (h # hs) \<or> contains hs n)"

text \<open>\<^verbatim>\<open>a.contains(b, Qt::CaseInsensitive)\<close>\<close>

definition contains_ci :: "string \<Rightarrow> string \<Rightarrow> bool" where
  "contains_ci a b = contains (map fold_case a) (map fold_case b)"

text \<open>
  The two loops over the icon table, \<^verbatim>\<open>for (int i = 0; i < num_icons; i++)\<close> with
  \<^verbatim>\<open>hum.icon = i; break;\<close> at the first hit: the rest of the table, the index of its
  first entry, and the value of \<^verbatim>\<open>hum.icon\<close> (a \<^verbatim>\<open>uint8_t\<close>) when no entry hits.
\<close>

fun icon_compare_loop :: "string \<Rightarrow> string list \<Rightarrow> nat \<Rightarrow> byte \<Rightarrow> byte" where
  "icon_compare_loop descr [] i icon = icon"
| "icon_compare_loop descr (x # xs) i icon =
     (if compare_ci descr x then word_of_nat i else icon_compare_loop descr xs (i + 1) icon)"

fun icon_contains_loop :: "string \<Rightarrow> string list \<Rightarrow> nat \<Rightarrow> byte \<Rightarrow> byte" where
  "icon_contains_loop descr [] i icon = icon"
| "icon_contains_loop descr (x # xs) i icon =
     (if contains_ci descr x then word_of_nat i else icon_contains_loop descr xs (i + 1) icon)"

text \<open>
  The icon of \<^verbatim>\<open>humminbird_write_waypoint\<close>: 255 to start with; for a description that is
  not null the exact loop, and when that leaves 255, \<^verbatim>\<open>hum.icon = 0\<close> and the containment
  loop.
\<close>

definition hum_icon :: "string list \<Rightarrow> string option \<Rightarrow> byte" where
  "hum_icon humminbird_icons descr =
     (case descr of
        None \<Rightarrow> 255
      | Some d \<Rightarrow>
          let icon = icon_compare_loop d humminbird_icons 0 255
          in if icon = 255 then icon_contains_loop d humminbird_icons 0 0 else icon)"

text \<open>
  \<^verbatim>\<open>humminbird_write_waypoint\<close>: the 4-byte magic and the 32-byte record. \<open>name\<close> is what
  the short-name service returns for the waypoint and \<open>time\<close> what
  \<^verbatim>\<open>GetCreationTime().toTime_t()\<close> returns (both outside this file); the depth is the
  waypoint's depth in centimetres, 0 without one.
\<close>

definition humminbird_write_waypoint ::
  "string list \<Rightarrow> byte list \<Rightarrow> uint32 \<Rightarrow> uint16 \<Rightarrow> waypoint \<Rightarrow> byte list" where
  "humminbird_write_waypoint humminbird_icons name time waypoint_num wpt =
     be_write32 WPT_MAGIC @
     be_write16 waypoint_num @ be_write16 0 @ [1] @
     [hum_icon humminbird_icons (icon_descr wpt)] @
     be_write16 (case depth_cm wpt of None \<Rightarrow> 0 | Some d \<Rightarrow> d) @
     be_write32 time @ be_write32 (east wpt) @ be_write32 (north wpt) @
     strncpy_field WPT_NAME_LEN name"

subsection \<open>Writing a track\<close>

record ht_writer =
  trk_head :: "humminbird_trk_header_t option"     \<comment> \<open>\<^verbatim>\<open>nullptr\<close> is \<open>None\<close>\<close>
  trk_points :: "humminbird_trk_point_t list"      \<comment> \<open>the array of \<^verbatim>\<open>max_points\<close> records\<close>
  last_east :: int32
  last_north :: int32
  last_time :: uint32
  fout :: "byte list"

definition zero_trk_header :: humminbird_trk_header_t where
  "zero_trk_header =
     \<lparr>trk_num = 0, num_points = 0, trk_time = 0, start_east = 0, start_north = 0,
      end_east = 0, end_north = 0, sw_east = 0, sw_north = 0, ne_east = 0, ne_north = 0,
      trk_name = replicate 20 0\<rparr>"

definition zero_trk_point :: humminbird_trk_point_t where
  "zero_trk_point = \<lparr>deltaeast = 0, deltanorth = 0, depth = 0\<rparr>"

text \<open>\<^verbatim>\<open>humminbird_track_head\<close>; \<open>mkshort\<close> is \<^verbatim>\<open>trkname_sh->mkshort\<close>.\<close>

definition humminbird_track_head ::
  "(byte list \<Rightarrow> byte list) \<Rightarrow> route_head \<Rightarrow> ht_writer \<Rightarrow> ht_writer" where
  "humminbird_track_head mkshort trk s =
     (let s1 = s\<lparr>trk_head := None, last_time := 0\<rparr>
      in if waypoint_list trk \<noteq> [] then
           s1\<lparr>trk_head := Some (zero_trk_header
                   \<lparr>trk_name := strncpy_field 20 (mkshort (rte_name trk)),
                    trk_num := rte_num trk\<rparr>),
               trk_points := replicate max_points zero_trk_point\<rparr>
         else s1)"

text \<open>
  \<^verbatim>\<open>humminbird_track_cb\<close>. The waypoint carries \<open>east\<close> and \<open>north\<close>, the \<^verbatim>\<open>qRound\<close> of its
  projected position. The source stores into \<^verbatim>\<open>trk_points[j]\<close> with no check of \<open>j\<close>
  against the size of the array; the model makes the store outside the array the result
  \<open>Out_of_bounds j\<close>. \<^verbatim>\<open>static_cast<int16_t>\<close> keeps the low 16 bits; the bounding box is
  compared as \<^verbatim>\<open>int32_t\<close> (\<open>update_bounding_box\<close>, the four \<^verbatim>\<open>if\<close>s of the source in their
  order); \<^verbatim>\<open>num_points\<close> is a \<^verbatim>\<open>uint16_t\<close>; \<open>set_last_time\<close> is the update of
  \<^verbatim>\<open>last_time\<close> for a point with a valid creation time.
\<close>

definition update_bounding_box ::
  "int32 \<Rightarrow> int32 \<Rightarrow> humminbird_trk_header_t \<Rightarrow> humminbird_trk_header_t" where
  "update_bounding_box e n h =
     (let h1 = (if sint (ne_east h) < sint e then h\<lparr>ne_east := e\<rparr> else h);
          h2 = (if sint e < sint (sw_east h1) then h1\<lparr>sw_east := e\<rparr> else h1);
          h3 = (if sint (ne_north h2) < sint n then h2\<lparr>ne_north := n\<rparr> else h2)
      in if sint n < sint (sw_north h3) then h3\<lparr>sw_north := n\<rparr> else h3)"

definition set_last_time :: "waypoint \<Rightarrow> ht_writer \<Rightarrow> ht_writer" where
  "set_last_time wpt s =
     (case creation_time wpt of Some t \<Rightarrow> s\<lparr>last_time := t\<rparr> | None \<Rightarrow> s)"

definition humminbird_track_cb :: "waypoint \<Rightarrow> ht_writer \<Rightarrow> error + ht_writer" where
  "humminbird_track_cb wpt s =
     (case trk_head s of
        None \<Rightarrow> Inr s
      | Some h \<Rightarrow>
          let i = unat (num_points h);
              s1 = set_last_time wpt s
          in if i = 0 then
               Inr (s1\<lparr>trk_head := Some (h\<lparr>start_east := east wpt, start_north := north wpt,
                                           sw_east := east wpt, ne_east := east wpt,
                                           sw_north := north wpt, ne_north := north wpt,
                                           num_points := num_points h + 1\<rparr>),
                       last_east := east wpt, last_north := north wpt\<rparr>)
             else
               let j = i - 1
               in if length (trk_points s1) \<le> j then Inl (Out_of_bounds j)
                  else
                    let p = \<lparr>deltaeast = ucast (east wpt - last_east s1),
                             deltanorth = ucast (north wpt - last_north s1),
                             depth = (case depth_cm wpt of None \<Rightarrow> 0 | Some d \<Rightarrow> d)\<rparr>;
                        h1 = update_bounding_box (east wpt) (north wpt) h
                    in Inr (s1\<lparr>trk_points := (trk_points s1)[j := p],
                               trk_head := Some (h1\<lparr>num_points := num_points h1 + 1\<rparr>),
                               last_east := east wpt, last_north := north wpt\<rparr>))"

definition trk_header_bytes :: "humminbird_trk_header_t \<Rightarrow> byte list" where
  "trk_header_bytes h =
     be_write16 (trk_num h) @ be_write16 0 @ be_write16 (num_points h) @ be_write16 0 @
     be_write32 (trk_time h) @
     be_write32 (start_east h) @ be_write32 (start_north h) @
     be_write32 (end_east h) @ be_write32 (end_north h) @
     be_write32 (sw_east h) @ be_write32 (sw_north h) @
     be_write32 (ne_east h) @ be_write32 (ne_north h) @
     trk_name h"

definition trk_point_bytes :: "humminbird_trk_point_t \<Rightarrow> byte list" where
  "trk_point_bytes p =
     be_write16 (deltaeast p) @ be_write16 (deltanorth p) @ be_write16 (depth p)"

text \<open>
  \<^verbatim>\<open>humminbird_track_tail\<close>: the magic, the header, the whole array of \<^verbatim>\<open>max_points\<close>
  records, and \<^verbatim>\<open>gbfputuint16(0, fout_)\<close>.
\<close>

definition humminbird_track_tail :: "ht_writer \<Rightarrow> ht_writer" where
  "humminbird_track_tail s =
     (case trk_head s of
        None \<Rightarrow> s
      | Some h \<Rightarrow>
          let h1 = h\<lparr>end_east := last_east s, end_north := last_north s,
                     trk_time := last_time s\<rparr>
          in s\<lparr>fout := fout s @ be_write32 TRK_MAGIC @ trk_header_bytes h1 @
                        concat (map trk_point_bytes (trk_points s)) @ be_write16 0,
               trk_head := None, trk_points := []\<rparr>)"

text \<open>
  Modelled from the spec: \<^verbatim>\<open>track_disp_all\<close> (defs.h) calls, for a track, the head
  callback, the point callback for each of its points in order, and the tail callback.
\<close>

fun track_cb_all :: "waypoint list \<Rightarrow> ht_writer \<Rightarrow> error + ht_writer" where
  "track_cb_all [] s = Inr s"
| "track_cb_all (wpt # wpts) s =
     (case humminbird_track_cb wpt s of
        Inl e \<Rightarrow> Inl e
      | Inr s1 \<Rightarrow> track_cb_all wpts s1)"

definition humminbird_write_track ::
  "(byte list \<Rightarrow> byte list) \<Rightarrow> route_head \<Rightarrow> ht_writer \<Rightarrow> error + ht_writer" where
  "humminbird_write_track mkshort trk s =
     (case track_cb_all (waypoint_list trk) (humminbird_track_head mkshort trk s) of
        Inl e \<Rightarrow> Inl e
      | Inr s1 \<Rightarrow> Inr (humminbird_track_tail s1))"

text \<open>Examples: an icon table, a writer that has written nothing, a point, tracks.\<close>

definition ex_icons :: "string list" where
  "ex_icons = [''Normal'', ''House'', ''Red cross'', ''Fish'']"

definition writer0 :: ht_writer where
  "writer0 = \<lparr>trk_head = None, trk_points = [], last_east = 0, last_north = 0,
              last_time = 0, fout = []\<rparr>"

definition ex_point :: waypoint where
  "ex_point = \<lparr>shortname = [], creation_time = None, east = 100, north = 200,
               depth_cm = None, icon_descr = None\<rparr>"

definition ex_track :: "nat \<Rightarrow> route_head" where
  "ex_track n = \<lparr>rte_name = [84], rte_num = 1, waypoint_list = replicate n ex_point\<rparr>"

text \<open>
  Used to state what a track write leaves in the array and in the output. \<open>delta_point\<close> is
  the record \<^verbatim>\<open>humminbird_track_cb\<close> stores for a point that follows \<open>prev\<close>, and
  \<open>track_deltas\<close> the records of a whole track, one for each point after the first.
  \<open>writer_inv\<close> is the state of the writer after the callbacks for the points \<open>pre\<close>: the
  header counts them and holds the first one, the array holds their deltas followed by
  zero records, and \<^verbatim>\<open>last_east\<close>, \<^verbatim>\<open>last_north\<close> are the last one.
\<close>

definition delta_point :: "waypoint \<Rightarrow> waypoint \<Rightarrow> humminbird_trk_point_t" where
  "delta_point prev wpt =
     \<lparr>deltaeast = ucast (east wpt - east prev), deltanorth = ucast (north wpt - north prev),
      depth = (case depth_cm wpt of None \<Rightarrow> 0 | Some d \<Rightarrow> d)\<rparr>"

fun track_deltas :: "waypoint list \<Rightarrow> humminbird_trk_point_t list" where
  "track_deltas (w1 # w2 # ws) = delta_point w1 w2 # track_deltas (w2 # ws)"
| "track_deltas [w1] = []"
| "track_deltas [] = []"

definition writer_inv :: "ht_writer \<Rightarrow> byte list \<Rightarrow> uint16 \<Rightarrow> waypoint list \<Rightarrow> bool" where
  "writer_inv s name num pre =
     (case trk_head s of
        None \<Rightarrow> False
      | Some h \<Rightarrow>
          pre \<noteq> [] \<and> unat (num_points h) = length pre \<and> trk_name h = name \<and>
          trk_num h = num \<and> start_east h = east (hd pre) \<and> start_north h = north (hd pre) \<and>
          trk_points s =
            track_deltas pre @ replicate (max_points - (length pre - 1)) zero_trk_point \<and>
          last_east s = east (last pre) \<and> last_north s = north (last pre))"

section \<open>Properties\<close>

subsection \<open>Sizes and the stream\<close>

lemma sizes:
  "sizeof_waypt = 32" "sizeof_rte = 132" "sizeof_trk_header = 64" "sizeof_trk_point = 6"
  "sizeof_trk_header_old = 28" "sizeof_trk_point_old = 4" "sizeof_uint32 = 4"
  "max_points = 21835" "max_points_old = 1999"
  by (simp_all add: sizeof_waypt_def sizeof_rte_def sizeof_trk_header_def sizeof_trk_point_def
      sizeof_trk_header_old_def sizeof_trk_point_old_def sizeof_uint32_def max_points_def
      max_points_old_def file_len_def WPT_NAME_LEN_def RTE_NAME_LEN_def TRK_NAME_LEN_def
      MAX_RTE_POINTS_def)

lemma gbfread_whole:
  "0 < sz \<Longrightarrow> 0 < members \<Longrightarrow> sz * members \<le> length (avail f) \<Longrightarrow>
   gbfread sz members f =
     (members, take (sz * members) (avail f), f\<lparr>pos := pos f + sz * members\<rparr>)"
  by (simp add: gbfread_def Let_def min_def)

lemma fill_buffer_whole: "length got = length buf \<Longrightarrow> fill_buffer buf got = got"
  by (simp add: fill_buffer_def)

subsection \<open>Waypoint records\<close>

text \<open>
  C7. Reading a waypoint record whose 32 bytes (36 with the magic the dispatcher has read)
  are in the stream always moves the stream position past the record. The waypoint is
  added to the waypoint list and registered in the index under its number exactly when
  the status byte is 1, 2 or 3; for every other status the reader's state is unchanged.
\<close>

theorem read_wpt_status:
  assumes "sizeof_waypt \<le> length (avail fin)"
  shows "humminbird_read_wpt icons fin st =
     (let w = parse_waypt (take sizeof_waypt (avail fin)); wpt = waypt_of icons w in
      Inr (fin\<lparr>pos := pos fin + sizeof_waypt\<rparr>,
           if w_status w \<in> {1, 2, 3}
           then st\<lparr>waypts := waypts st @ [wpt],
                   wpt_num_to_wpt_hash := (wpt_num_to_wpt_hash st)(w_num w \<mapsto> wpt)\<rparr>
           else st))"
proof -
  have r: "gbfread 1 sizeof_waypt fin =
      (sizeof_waypt, take sizeof_waypt (avail fin), fin\<lparr>pos := pos fin + sizeof_waypt\<rparr>)"
    using assms gbfread_whole [of 1 sizeof_waypt fin] by (simp add: sizes)
  have l: "length (take sizeof_waypt (avail fin)) = length (replicate sizeof_waypt (0::byte))"
    using assms by simp
  show ?thesis
    unfolding humminbird_read_wpt_def r
    by (simp add: fill_buffer_whole [OF l] Let_def) (simp add: sizes)
qed

theorem read_wpt_status_witness:
  "sizeof_waypt \<le> length (avail ex_wpt_file) \<and>
   humminbird_read_wpt [''Normal'', ''House''] ex_wpt_file reader0 =
     Inr (ex_wpt_file\<lparr>pos := 32\<rparr>,
          reader0\<lparr>waypts := [\<lparr>shortname = [65, 66], creation_time = Some 9, east = 256,
                               north = 512, depth_cm = None, icon_descr = Some ''House''\<rparr>],
                  wpt_num_to_wpt_hash :=
                    [7 \<mapsto> \<lparr>shortname = [65, 66], creation_time = Some 9, east = 256,
                            north = 512, depth_cm = None, icon_descr = Some ''House''\<rparr>]\<rparr>)"
  using read_wpt_status [of ex_wpt_file "[''Normal'', ''House'']" reader0]
  by (simp add: ex_wpt_file_def reader0_def avail_def parse_waypt_def waypt_of_def
      be_read16_def be_read32_def cstring_def WPT_NAME_LEN_def Let_def sizes)

subsection \<open>Route records\<close>

declare read_route_loop.simps [simp del]

lemma route_sizes: "MAX_RTE_POINTS = 50" "RTE_NAME_LEN = 20"
  by (simp_all add: MAX_RTE_POINTS_def RTE_NAME_LEN_def)

lemma resolved_points_step:
  "i < n \<Longrightarrow> resolved_points hrte hash i n =
     (case hash (be_read16 (r_points hrte) (2 * i)) of None \<Rightarrow> [] | Some w \<Rightarrow> [w]) @
     resolved_points hrte hash (i + 1) n"
  by (simp add: resolved_points_def upt_conv_Cons List.map_filter_simps split: option.splits)

text \<open>While the count is at most 50 the loop stays inside the array and never fails.\<close>

lemma read_route_loop_in_bounds:
  "sint (r_count hrte) \<le> int MAX_RTE_POINTS \<Longrightarrow>
   read_route_loop hrte hash i rte =
     Inr (after_points hrte rte (resolved_points hrte hash i (nat (sint (r_count hrte)))))"
proof (induction hrte hash i rte rule: read_route_loop.induct)
  case (1 hrte hash i rte)
  show ?case
  proof (cases "int i < sint (r_count hrte)")
    case False
    then have "resolved_points hrte hash i (nat (sint (r_count hrte))) = []"
      by (simp add: resolved_points_def List.map_filter_simps)
    with False show ?thesis
      by (subst read_route_loop.simps) (simp add: after_points_def)
  next
    case True
    then have lt: "i < nat (sint (r_count hrte))" by simp
    from True "1.prems" have nb: "\<not> MAX_RTE_POINTS \<le> i" by simp
    show ?thesis
    proof (cases "hash (be_read16 (r_points hrte) (2 * i))")
      case None
      with "1.IH"(1) [OF True nb None "1.prems"] True nb show ?thesis
        by (subst read_route_loop.simps) (simp add: resolved_points_step [OF lt])
    next
      case (Some w)
      with "1.IH"(2) [OF True nb Some "1.prems"] True nb show ?thesis
        by (subst read_route_loop.simps)
          (auto simp add: resolved_points_step [OF lt] after_points_def route_add_wpt_def
            split: option.splits)
    qed
  qed
qed

text \<open>With a count above 50 the loop reaches index 50, whatever the index resolves.\<close>

lemma read_route_loop_overflow:
  "int MAX_RTE_POINTS < sint (r_count hrte) \<Longrightarrow> i \<le> MAX_RTE_POINTS \<Longrightarrow>
   read_route_loop hrte hash i rte = Inl (Out_of_bounds MAX_RTE_POINTS)"
proof (induction hrte hash i rte rule: read_route_loop.induct)
  case (1 hrte hash i rte)
  from "1.prems" have lt: "int i < sint (r_count hrte)" by simp
  show ?case
  proof (cases "i = MAX_RTE_POINTS")
    case True
    with lt show ?thesis by (subst read_route_loop.simps) simp
  next
    case False
    with "1.prems" have nb: "\<not> MAX_RTE_POINTS \<le> i" and le: "i + 1 \<le> MAX_RTE_POINTS"
      by simp_all
    show ?thesis
    proof (cases "hash (be_read16 (r_points hrte) (2 * i))")
      case None
      with "1.IH"(1) [OF lt nb None "1.prems"(1) le] lt nb show ?thesis
        by (subst read_route_loop.simps) simp
    next
      case (Some w)
      with "1.IH"(2) [OF lt nb Some "1.prems"(1) le] lt nb show ?thesis
        by (subst read_route_loop.simps) simp
    qed
  qed
qed

lemma read_route_whole:
  assumes "sizeof_rte \<le> length (avail fin)"
  shows "humminbird_read_route fin st =
     (let hrte = parse_rte (take sizeof_rte (avail fin));
          fin' = fin\<lparr>pos := pos fin + sizeof_rte\<rparr>
      in if 0 < sint (r_count hrte) then
               (case read_route_loop hrte (wpt_num_to_wpt_hash st) 0 None of
                  Inl e \<Rightarrow> Inl e
                | Inr None \<Rightarrow> Inr (fin', st)
                | Inr (Some rte) \<Rightarrow> Inr (fin', st\<lparr>routes := routes st @ [rte]\<rparr>))
             else Inr (fin', st))"
proof -
  have r: "gbfread 1 sizeof_rte fin =
      (sizeof_rte, take sizeof_rte (avail fin), fin\<lparr>pos := pos fin + sizeof_rte\<rparr>)"
    using assms gbfread_whole [of 1 sizeof_rte fin] by (simp add: sizes)
  have l: "length (take sizeof_rte (avail fin)) = length (replicate sizeof_rte (0::byte))"
    using assms by simp
  show ?thesis
    unfolding humminbird_read_route_def r
    by (simp add: fill_buffer_whole [OF l] Let_def) (simp add: sizes)
qed

lemma ex_rte_avail: "sizeof_rte \<le> length (avail ex_rte_file)"
  by (simp add: ex_rte_file_def avail_def sizes)

lemma ex_rte_parse:
  "parse_rte (take sizeof_rte (avail ex_rte_file)) =
     \<lparr>r_num = 1, r_count = 3, r_time = 0, r_name = [82] @ replicate 19 0,
      r_points = [0,5, 0,99, 0,7] @ replicate 94 0\<rparr>"
  by (simp add: ex_rte_file_def avail_def parse_rte_def sizes route_sizes be_read16_def
      be_read32_def)

text \<open>
  C2. The claim fails on the code. \<^verbatim>\<open>humminbird_read_route\<close> compares the loop index with
  the signed count only, never with the 50 entries of the point array, and has no fatal
  error for a count above 50: on a record whose count byte is 51 the loop reads
  \<^verbatim>\<open>hrte.points[50]\<close>, one entry past the end of the array.
\<close>

theorem read_route_count_51:
  "humminbird_read_route ex_rte_file51 reader0 = Inl (Out_of_bounds 50)"
proof -
  have a: "sizeof_rte \<le> length (avail ex_rte_file51)"
    by (simp add: ex_rte_file51_def avail_def sizes)
  have c: "r_count (parse_rte (take sizeof_rte (avail ex_rte_file51))) = 51"
    by (simp add: ex_rte_file51_def avail_def parse_rte_def sizes)
  have "read_route_loop (parse_rte (take sizeof_rte (avail ex_rte_file51)))
          (wpt_num_to_wpt_hash reader0) 0 None = Inl (Out_of_bounds MAX_RTE_POINTS)"
    by (rule read_route_loop_overflow) (simp_all add: c MAX_RTE_POINTS_def)
  then show ?thesis
    by (simp add: read_route_whole [OF a] Let_def c MAX_RTE_POINTS_def)
qed

text \<open>
  C3, as the code has it. For a route record with a count from 1 to 50, a point number
  that the waypoint index does not hold is dropped and nothing else happens for it: the
  reader's warnings are unchanged (the route reader emits no warning at all). The
  waypoints of the numbers that resolve are kept in the record's order, and they make one
  new route, named by the record, exactly when there is at least one of them.
\<close>

theorem read_route_unresolved_dropped:
  assumes "sizeof_rte \<le> length (avail fin)"
    and "hrte = parse_rte (take sizeof_rte (avail fin))"
    and "0 < sint (r_count hrte)" and "sint (r_count hrte) \<le> 50"
    and "ws = resolved_points hrte (wpt_num_to_wpt_hash st) 0 (nat (sint (r_count hrte)))"
  shows "humminbird_read_route fin st =
     Inr (fin\<lparr>pos := pos fin + sizeof_rte\<rparr>,
          if ws = [] then st
          else st\<lparr>routes := routes st @
                 [\<lparr>rte_name = cstring (r_name hrte), rte_num = 0, waypoint_list = ws\<rparr>]\<rparr>)"
proof -
  have "read_route_loop hrte (wpt_num_to_wpt_hash st) 0 None = Inr (after_points hrte None ws)"
    using assms(4,5) read_route_loop_in_bounds [of hrte "wpt_num_to_wpt_hash st" 0 None]
    by (simp add: route_sizes)
  then show ?thesis
    using assms(2,3) by (simp add: read_route_whole [OF assms(1)] Let_def after_points_def)
qed

theorem read_route_unresolved_dropped_witness:
  "sizeof_rte \<le> length (avail ex_rte_file) \<and>
   0 < sint (r_count (parse_rte (take sizeof_rte (avail ex_rte_file)))) \<and>
   sint (r_count (parse_rte (take sizeof_rte (avail ex_rte_file)))) \<le> 50 \<and>
   humminbird_read_route ex_rte_file ex_reader =
     Inr (ex_rte_file\<lparr>pos := 132\<rparr>,
          ex_reader\<lparr>routes := [\<lparr>rte_name = [82], rte_num = 0,
                                 waypoint_list = [ex_wpt5, ex_wpt7]\<rparr>]\<rparr>)"
proof -
  have u: "[0..<3] = [0, 1, 2::nat]" by code_simp
  show ?thesis
    using ex_rte_avail
      read_route_unresolved_dropped [of ex_rte_file _ _ ex_reader, OF ex_rte_avail refl _ _ refl]
    unfolding ex_rte_parse
    by (simp add: resolved_points_def List.map_filter_simps u
        be_read16_def ex_reader_def reader0_def cstring_def)
      (simp add: sizes ex_rte_file_def)
qed

text \<open>
  The claim's own example, the point list 5, 99, 7 with 99 not in the index: the route is
  made of the waypoints 5 and 7, and the list of warnings is empty afterwards, where the
  claim has exactly one warning.
\<close>

theorem read_route_no_warning:
  "map_sum id (\<lambda>(f, st). (map waypoint_list (routes st), warnings st))
     (humminbird_read_route ex_rte_file ex_reader) = Inr ([[ex_wpt5, ex_wpt7]], [])"
  by (simp add: read_route_whole [OF ex_rte_avail] ex_rte_parse Let_def)
    (simp add: read_route_loop.simps be_read16_def ex_reader_def reader0_def route_sizes
      route_add_wpt_def)

subsection \<open>Track records (new format)\<close>

declare read_track_loop.simps [simp del]

lemma loop_cond: "(int i < int (unat (w::16 word)) - 1) = (i + 1 < unat w)"
  by (simp only: flip: of_nat_less_iff [where 'a=int]) auto

lemma last_cond: "(int i = int (unat (w::16 word)) - 2) = (i + 2 = unat w)"
  by (simp only: flip: of_nat_eq_iff [where 'a=int]) auto

lemma read_track_loop_step:
  "int i < int (unat (num_points th)) - 1 \<Longrightarrow> i + 1 < length points \<Longrightarrow>
   read_track_loop th i points ae an trk =
     (let p2 = filter_step_north (filter_step_east points i) i;
          ae' = ae + scast (deltaeast (p2 ! i));
          an' = an + scast (deltanorth (p2 ! i))
      in read_track_loop th (i + 1) p2 ae' an'
           (trk @ [track_wpt ae' an'
                     (if depth (p2 ! i) \<noteq> 0 then Some (depth (p2 ! i)) else None)
                     (if int i = int (unat (num_points th)) - 2 \<and> trk_time th \<noteq> 0
                      then Some (trk_time th) else None)]))"
  by (subst read_track_loop.simps) (simp add: Let_def filter_step_east_def filter_step_north_def)

lemma w16: "(0::16 word) \<noteq> 32767" "(- 32768::16 word) \<noteq> 32767" "(0::16 word) \<noteq> - 32768"
  by simp_all

lemma filter_step_east_inv:
  assumes "filter_inv cur raw i" "i + 1 < length raw"
  shows "deltaeast (filter_step_east cur i ! i) = filtered_east raw i"
    and "deltanorth (filter_step_east cur i ! i) = deltanorth (cur ! i)"
    and "depth (filter_step_east cur i ! i) = depth (raw ! i)"
    and "length (filter_step_east cur i) = length raw"
    and "\<forall>j. i + 1 < j \<longrightarrow> filter_step_east cur i ! j = raw ! j"
    and "deltaeast (filter_step_east cur i ! (i + 1)) =
           (if freak_east raw i then 0 else deltaeast (raw ! (i + 1)))"
    and "deltanorth (filter_step_east cur i ! (i + 1)) = deltanorth (raw ! (i + 1))"
    and "depth (filter_step_east cur i ! (i + 1)) = depth (raw ! (i + 1))"
proof -
  from assms have l: "i < length cur" "Suc i < length cur" and len: "length cur = length raw"
    and nx: "cur ! Suc i = raw ! Suc i"
    and rest: "\<forall>j. i < j \<longrightarrow> cur ! j = raw ! j"
    and de: "deltaeast (cur ! i) =
              (if 0 < i \<and> freak_east raw (i - 1) then 0 else deltaeast (raw ! i))"
    and dp: "depth (cur ! i) = depth (raw ! i)"
    by (simp_all add: filter_inv_def)
  have prev: "0 < i \<and> freak_east raw (i - 1) \<Longrightarrow> deltaeast (raw ! i) = - 32768"
    by (auto simp add: freak_east_def)
  have cond: "(deltaeast (cur ! i) = 32767 \<and> deltaeast (cur ! (i + 1)) = - 32768) = freak_east raw i"
    using de nx prev w16 by (auto simp add: freak_east_def)
  show "deltaeast (filter_step_east cur i ! i) = filtered_east raw i"
    using l de cond by (auto simp add: filter_step_east_def filtered_east_def)
  show "deltanorth (filter_step_east cur i ! i) = deltanorth (cur ! i)"
    using l by (simp add: filter_step_east_def)
  show "depth (filter_step_east cur i ! i) = depth (raw ! i)"
    using l dp by (simp add: filter_step_east_def)
  show "length (filter_step_east cur i) = length raw"
    using len by (simp add: filter_step_east_def)
  show "\<forall>j. i + 1 < j \<longrightarrow> filter_step_east cur i ! j = raw ! j"
    using rest by (simp add: filter_step_east_def)
  show "deltaeast (filter_step_east cur i ! (i + 1)) =
           (if freak_east raw i then 0 else deltaeast (raw ! (i + 1)))"
    using l nx cond by (simp add: filter_step_east_def)
  show "deltanorth (filter_step_east cur i ! (i + 1)) = deltanorth (raw ! (i + 1))"
    using l nx by (simp add: filter_step_east_def)
  show "depth (filter_step_east cur i ! (i + 1)) = depth (raw ! (i + 1))"
    using l nx by (simp add: filter_step_east_def)
qed

lemma filter_step_north_inv:
  assumes "length cur = length raw" "i + 1 < length raw"
    and "deltanorth (cur ! i) =
           (if 0 < i \<and> freak_north raw (i - 1) then 0 else deltanorth (raw ! i))"
    and "deltanorth (cur ! (i + 1)) = deltanorth (raw ! (i + 1))"
  shows "deltanorth (filter_step_north cur i ! i) = filtered_north raw i"
    and "deltaeast (filter_step_north cur i ! i) = deltaeast (cur ! i)"
    and "depth (filter_step_north cur i ! i) = depth (cur ! i)"
    and "length (filter_step_north cur i) = length raw"
    and "\<forall>j. i + 1 < j \<longrightarrow> filter_step_north cur i ! j = cur ! j"
    and "deltanorth (filter_step_north cur i ! (i + 1)) =
           (if freak_north raw i then 0 else deltanorth (raw ! (i + 1)))"
    and "deltaeast (filter_step_north cur i ! (i + 1)) = deltaeast (cur ! (i + 1))"
    and "depth (filter_step_north cur i ! (i + 1)) = depth (cur ! (i + 1))"
proof -
  from assms have l: "i < length cur" "Suc i < length cur" by simp_all
  note dn = assms(3) and nx = assms(4)
  have prev: "0 < i \<and> freak_north raw (i - 1) \<Longrightarrow> deltanorth (raw ! i) = - 32768"
    by (auto simp add: freak_north_def)
  have cond: "(deltanorth (cur ! i) = 32767 \<and> deltanorth (cur ! (i + 1)) = - 32768) =
      freak_north raw i"
    using dn nx prev w16 by (auto simp add: freak_north_def)
  show "deltanorth (filter_step_north cur i ! i) = filtered_north raw i"
    using l dn cond by (auto simp add: filter_step_north_def filtered_north_def)
  show "deltaeast (filter_step_north cur i ! i) = deltaeast (cur ! i)"
    using l by (simp add: filter_step_north_def)
  show "depth (filter_step_north cur i ! i) = depth (cur ! i)"
    using l by (simp add: filter_step_north_def)
  show "length (filter_step_north cur i) = length raw"
    using assms(1) by (simp add: filter_step_north_def)
  show "\<forall>j. i + 1 < j \<longrightarrow> filter_step_north cur i ! j = cur ! j"
    by (simp add: filter_step_north_def)
  show "deltanorth (filter_step_north cur i ! (i + 1)) =
           (if freak_north raw i then 0 else deltanorth (raw ! (i + 1)))"
    using l nx cond by (simp add: filter_step_north_def)
  show "deltaeast (filter_step_north cur i ! (i + 1)) = deltaeast (cur ! (i + 1))"
    using l by (simp add: filter_step_north_def)
  show "depth (filter_step_north cur i ! (i + 1)) = depth (cur ! (i + 1))"
    using l by (simp add: filter_step_north_def)
qed

lemma filter_steps_inv:
  assumes "filter_inv cur raw i" "i + 1 < length raw"
  defines "p2 \<equiv> filter_step_north (filter_step_east cur i) i"
  shows "deltaeast (p2 ! i) = filtered_east raw i"
    and "deltanorth (p2 ! i) = filtered_north raw i"
    and "depth (p2 ! i) = depth (raw ! i)"
    and "filter_inv p2 raw (i + 1)"
proof -
  note e = filter_step_east_inv [OF assms(1,2)]
  from assms(1) have dn: "deltanorth (cur ! i) =
      (if 0 < i \<and> freak_north raw (i - 1) then 0 else deltanorth (raw ! i))"
    by (simp add: filter_inv_def)
  note n = filter_step_north_inv [of "filter_step_east cur i" raw i, OF e(4) assms(2)
      dn [folded e(2)] e(7)]
  show "deltaeast (p2 ! i) = filtered_east raw i" unfolding p2_def using n(2) e(1) by simp
  show "deltanorth (p2 ! i) = filtered_north raw i" unfolding p2_def using n(1) by simp
  show "depth (p2 ! i) = depth (raw ! i)" unfolding p2_def using n(3) e(3) by simp
  show "filter_inv p2 raw (i + 1)"
    unfolding filter_inv_def p2_def
    using n(4,5,6,7,8) e(5,6,8) by simp
qed

lemma read_track_loop_done:
  "\<not> i + 1 < unat (num_points th) \<Longrightarrow> read_track_loop th i points ae an trk = Inr trk"
  by (subst read_track_loop.simps) (simp only: loop_cond if_False)

lemma read_track_loop_filtered:
  "filter_inv cur raw i \<Longrightarrow> length raw = unat (num_points th) \<Longrightarrow>
   m = unat (num_points th) - 1 - i \<Longrightarrow>
   read_track_loop th i cur ae an trk = Inr (trk @ track_wpts th raw i m ae an)"
proof (induction m arbitrary: i cur ae an trk)
  case 0
  then have "\<not> i + 1 < unat (num_points th)" by simp
  then show ?case by (simp add: read_track_loop_done)
next
  case (Suc m)
  then have c: "i + 1 < unat (num_points th)" by simp
  then have t: "int i < int (unat (num_points th)) - 1" unfolding loop_cond .
  from c Suc.prems have lt: "i + 1 < length raw" by simp
  from Suc.prems(1) lt have lc: "i + 1 < length cur" by (simp add: filter_inv_def)
  from Suc.prems(3) have m: "m = unat (num_points th) - 1 - (i + 1)" by simp
  note f = filter_steps_inv [OF Suc.prems(1) lt]
  show ?case
    unfolding read_track_loop_step [OF t lc] Let_def f(1,2,3)
    by (subst Suc.IH [OF f(4) Suc.prems(2) m]) simp
qed

lemma length_track_wpts: "length (track_wpts th raw i m ae an) = m"
  by (induction m arbitrary: i ae an) simp_all

lemma track_wpts_east:
  "k < m \<Longrightarrow> east (track_wpts th raw i m ae an ! k) =
     ae + sum_list (map (\<lambda>j. scast (filtered_east raw j)) [i..<i + k + 1])"
proof (induction m arbitrary: i k ae an)
  case 0
  then show ?case by simp
next
  case (Suc m)
  show ?case
  proof (cases k)
    case 0
    then show ?thesis by (simp add: track_wpt_def)
  next
    case (Suc k')
    with Suc.prems have "k' < m" by simp
    note ih = Suc.IH [OF this, of "i + 1" "ae + scast (filtered_east raw i)"
        "an + scast (filtered_north raw i)"]
    have u: "[i..<i + k + 1] = i # [i + 1..<i + 1 + k' + 1]"
      using Suc by (simp add: upt_conv_Cons)
    have "east (track_wpts th raw i (Suc m) ae an ! k) =
          east (track_wpts th raw (i + 1) m (ae + scast (filtered_east raw i))
            (an + scast (filtered_north raw i)) ! k')"
      using Suc by simp
    also note ih
    finally show ?thesis
      unfolding u by (simp only: list.map sum_list.Cons add.assoc)
  qed
qed

lemma track_wpts_north:
  "k < m \<Longrightarrow> north (track_wpts th raw i m ae an ! k) =
     an + sum_list (map (\<lambda>j. scast (filtered_north raw j)) [i..<i + k + 1])"
proof (induction m arbitrary: i k ae an)
  case 0
  then show ?case by simp
next
  case (Suc m)
  show ?case
  proof (cases k)
    case 0
    then show ?thesis by (simp add: track_wpt_def)
  next
    case (Suc k')
    with Suc.prems have "k' < m" by simp
    note ih = Suc.IH [OF this, of "i + 1" "ae + scast (filtered_east raw i)"
        "an + scast (filtered_north raw i)"]
    have u: "[i..<i + k + 1] = i # [i + 1..<i + 1 + k' + 1]"
      using Suc by (simp add: upt_conv_Cons)
    have "north (track_wpts th raw i (Suc m) ae an ! k) =
          north (track_wpts th raw (i + 1) m (ae + scast (filtered_east raw i))
            (an + scast (filtered_north raw i)) ! k')"
      using Suc by simp
    also note ih
    finally show ?thesis
      unfolding u by (simp only: list.map sum_list.Cons add.assoc)
  qed
qed

lemma scast16:
  "(scast (- 1 :: 16 word) :: 32 word) = - 1"
  "(scast (32767 :: 16 word) :: 32 word) = 32767"
  "(scast (- 32768 :: 16 word) :: 32 word) = - 32768"
  "(scast (0 :: 16 word) :: 32 word) = 0"
  by simp_all

text \<open>
  The filter keeps every running sum but the one at the first point of a freak pair:
  \<open>- 1 + 0 = 32767 + - 32768\<close>.
\<close>

lemma filtered_sum:
  fixes d :: "nat \<Rightarrow> 16 word"
  assumes fl: "\<And>k. fl k = (if d k = 32767 \<and> d (k + 1) = - 32768 then - 1
                 else if 0 < k \<and> d (k - 1) = 32767 \<and> d k = - 32768 then 0 else d k)"
  shows "sum_list (map (\<lambda>j. (scast (fl j) :: 32 word)) [0..<k + 1]) =
         sum_list (map (\<lambda>j. scast (d j)) [0..<k + 1]) -
           (if d k = 32767 \<and> d (k + 1) = - 32768 then 32768 else 0)"
proof (induction k)
  case 0
  show ?case by (auto simp add: fl scast16)
next
  case (Suc k)
  let ?S = "sum_list (map (\<lambda>j. (scast (d j) :: 32 word)) [0..<k + 1])"
  have "sum_list (map (\<lambda>j. (scast (fl j) :: 32 word)) [0..<Suc k + 1]) =
        sum_list (map (\<lambda>j. (scast (fl j) :: 32 word)) [0..<k + 1]) + scast (fl (Suc k))"
    by simp
  also have "\<dots> = ?S - (if d k = 32767 \<and> d (k + 1) = - 32768 then 32768 else 0) +
      scast (fl (Suc k))"
    unfolding Suc.IH ..
  also have "\<dots> = ?S + scast (d (Suc k)) -
      (if d (Suc k) = 32767 \<and> d (Suc k + 1) = - 32768 then 32768 else 0)"
  proof (cases "d k = 32767 \<and> d (k + 1) = - 32768")
    case True
    then have "d (Suc k) = - 32768" by simp
    with True show ?thesis using w16 by (simp add: fl [of "Suc k"] scast16)
  next
    case False
    then have f: "fl (Suc k) = (if d (Suc k) = 32767 \<and> d (Suc k + 1) = - 32768 then - 1
        else d (Suc k))"
      by (simp add: fl [of "Suc k"])
    show ?thesis
    proof (cases "d (Suc k) = 32767 \<and> d (Suc k + 1) = - 32768")
      case True
      with False show ?thesis by (simp add: f scast16)
    next
      case nf: False
      from False have "(if d k = 32767 \<and> d (k + 1) = - 32768 then 32768 else (0::32 word)) = 0"
        by simp
      moreover from nf have
        "(if d (Suc k) = 32767 \<and> d (Suc k + 1) = - 32768 then 32768 else (0::32 word)) = 0"
        by simp
      moreover from nf have "fl (Suc k) = d (Suc k)" by (simp add: f)
      ultimately show ?thesis by simp
    qed
  qed
  also have "?S + scast (d (Suc k)) =
      sum_list (map (\<lambda>j. (scast (d j) :: 32 word)) [0..<Suc k + 1])"
    by simp
  finally show ?case .
qed

lemma filtered_east_sum:
  "sum_list (map (\<lambda>j. scast (filtered_east raw j)) [0..<k + 1]) =
   sum_list (map (\<lambda>j. scast (deltaeast (raw ! j))) [0..<k + 1]) -
     (if freak_east raw k then 32768 else (0 :: 32 word))"
proof -
  have fl: "\<And>k. filtered_east raw k =
      (if deltaeast (raw ! k) = 32767 \<and> deltaeast (raw ! (k + 1)) = - 32768 then - 1
       else if 0 < k \<and> deltaeast (raw ! (k - 1)) = 32767 \<and> deltaeast (raw ! k) = - 32768
       then 0 else deltaeast (raw ! k))"
    by (auto simp add: filtered_east_def freak_east_def)
  show ?thesis
    using filtered_sum [of "filtered_east raw" "\<lambda>j. deltaeast (raw ! j)", OF fl, of k]
    by (simp only: freak_east_def)
qed

lemma filtered_north_sum:
  "sum_list (map (\<lambda>j. scast (filtered_north raw j)) [0..<k + 1]) =
   sum_list (map (\<lambda>j. scast (deltanorth (raw ! j))) [0..<k + 1]) -
     (if freak_north raw k then 32768 else (0 :: 32 word))"
proof -
  have fl: "\<And>k. filtered_north raw k =
      (if deltanorth (raw ! k) = 32767 \<and> deltanorth (raw ! (k + 1)) = - 32768 then - 1
       else if 0 < k \<and> deltanorth (raw ! (k - 1)) = 32767 \<and> deltanorth (raw ! k) = - 32768
       then 0 else deltanorth (raw ! k))"
    by (auto simp add: filtered_north_def freak_north_def)
  show ?thesis
    using filtered_sum [of "filtered_north raw" "\<lambda>j. deltanorth (raw ! j)", OF fl, of k]
    by (simp only: freak_north_def)
qed

lemma filter_inv_start: "filter_inv raw raw 0"
  by (simp add: filter_inv_def)

lemma track_wpts_step_east:
  "k < m \<Longrightarrow> east (track_wpts th raw 0 m ae an ! k) =
     (if k = 0 then ae else east (track_wpts th raw 0 m ae an ! (k - 1))) +
     scast (filtered_east raw k)"
  by (cases k) (simp_all add: track_wpts_east add.assoc)

lemma track_wpts_step_north:
  "k < m \<Longrightarrow> north (track_wpts th raw 0 m ae an ! k) =
     (if k = 0 then an else north (track_wpts th raw 0 m ae an ! (k - 1))) +
     scast (filtered_north raw k)"
  by (cases k) (simp_all add: track_wpts_north add.assoc)

lemma freak_east_filtered:
  "freak_east points k \<Longrightarrow> filtered_east points k = - 1 \<and> filtered_east points (k + 1) = 0"
  using w16 by (auto simp add: filtered_east_def freak_east_def)

lemma freak_north_filtered:
  "freak_north points k \<Longrightarrow> filtered_north points k = - 1 \<and> filtered_north points (k + 1) = 0"
  using w16 by (auto simp add: filtered_north_def freak_north_def)

text \<open>
  C5, as the code has it. In a new-format track decode every record \<open>k\<close> of the body adds
  its filtered delta to the accumulated position, on each axis on its own: where record
  \<open>k\<close> has the delta 32767 and record \<open>k + 1\<close> the delta -32768, the deltas added are -1 at
  \<open>k\<close> and 0 at \<open>k + 1\<close>. The accumulated coordinate of record \<open>k\<close> is then 32768 below the
  running sum of the file's own deltas when \<open>k\<close> is the first record of a freak pair, and
  equal to that sum at every other record: after the pair the difference is 0, not 1, since
  \<open>-1 + 0 = 32767 + -32768\<close>.
\<close>

theorem read_track_freak_values:
  assumes "length points = unat (num_points th)"
  shows "\<exists>wpts. read_track_loop th 0 points ae an trk = Inr (trk @ wpts) \<and>
     length wpts = unat (num_points th) - 1 \<and>
     (\<forall>k. k + 1 < unat (num_points th) \<longrightarrow>
        east (wpts ! k) =
          (if k = 0 then ae else east (wpts ! (k - 1))) + scast (filtered_east points k) \<and>
        north (wpts ! k) =
          (if k = 0 then an else north (wpts ! (k - 1))) + scast (filtered_north points k) \<and>
        (freak_east points k \<longrightarrow>
           filtered_east points k = - 1 \<and> filtered_east points (k + 1) = 0) \<and>
        (freak_north points k \<longrightarrow>
           filtered_north points k = - 1 \<and> filtered_north points (k + 1) = 0) \<and>
        east (wpts ! k) =
          naive_east ae points k - (if freak_east points k then 32768 else 0) \<and>
        north (wpts ! k) =
          naive_north an points k - (if freak_north points k then 32768 else 0))"
proof (intro exI conjI allI impI)
  let ?w = "track_wpts th points 0 (unat (num_points th) - 1) ae an"
  show "read_track_loop th 0 points ae an trk = Inr (trk @ ?w)"
    using read_track_loop_filtered [OF filter_inv_start assms, of "unat (num_points th) - 1"]
    by simp
  show "length ?w = unat (num_points th) - 1"
    by (rule length_track_wpts)
  fix k assume "k + 1 < unat (num_points th)"
  then have k: "k < unat (num_points th) - 1" by simp
  show "east (?w ! k) =
        (if k = 0 then ae else east (?w ! (k - 1))) + scast (filtered_east points k)"
    by (rule track_wpts_step_east [OF k])
  show "north (?w ! k) =
        (if k = 0 then an else north (?w ! (k - 1))) + scast (filtered_north points k)"
    by (rule track_wpts_step_north [OF k])
  show "east (?w ! k) = naive_east ae points k - (if freak_east points k then 32768 else 0)"
    unfolding track_wpts_east [OF k] naive_east_def
    using filtered_east_sum [of points k] by (simp only: add_0 diff_add_eq add_diff_eq)
  show "north (?w ! k) = naive_north an points k - (if freak_north points k then 32768 else 0)"
    unfolding track_wpts_north [OF k] naive_north_def
    using filtered_north_sum [of points k] by (simp only: add_0 diff_add_eq add_diff_eq)
next
  fix k assume "freak_east points k"
  then show "filtered_east points k = - 1" "filtered_east points (k + 1) = 0"
    using freak_east_filtered by simp_all
next
  fix k assume "freak_north points k"
  then show "filtered_north points k = - 1" "filtered_north points (k + 1) = 0"
    using freak_north_filtered by simp_all
qed

lemma avail_after: "avail (f\<lparr>pos := pos f + k\<rparr>) = drop k (avail f)"
  by (simp add: avail_def add.commute)

lemma gbfread_some:
  "0 < sz \<Longrightarrow> 0 < members \<Longrightarrow>
   gbfread sz members f =
     (length (take (sz * members) (avail f)) div sz, take (sz * members) (avail f),
      f\<lparr>pos := pos f + length (take (sz * members) (avail f))\<rparr>)"
  by (simp add: gbfread_def Let_def)

lemma members_conv: "1 \<le> m \<Longrightarrow> m < 4294967296 \<Longrightarrow> nat ((int m - 1) mod 2 ^ 32) = m - 1"
proof -
  assume a: "1 \<le> m" "m < 4294967296"
  have p: "(2::int) ^ 32 = 4294967296" by simp
  from a have e: "int m - 1 = int (m - 1)" by simp
  have "int (m - 1) mod 4294967296 = int (m - 1)"
    using a by (intro mod_pos_pos_trivial) linarith+
  then show ?thesis unfolding p e by simp
qed

lemma length_parse_points: "length (parse_points b n) = n"
  by (simp add: parse_points_def)

lemma read_track_header:
  assumes "sizeof_trk_header \<le> length (avail fin)"
  shows "humminbird_read_track fin st =
     (let th = adjust_num_points (parse_trk_header (take sizeof_trk_header (avail fin)));
          n = unat (num_points th);
          fin1 = fin\<lparr>pos := pos fin + sizeof_trk_header\<rparr>
      in if max_points < n then Inl (Too_many_track_points n)
         else
           let buf = replicate (sizeof_trk_point * n) 0;
               members = nat ((int n - 1) mod 2 ^ 32)
           in (case gbfread sizeof_trk_point members fin1 of (k2, got2, fin2) \<Rightarrow>
                 if length buf < length got2 then Inl (Out_of_bounds n)
                 else if k2 = 0 then Inl Unexpected_eof_points
                 else
                   let points = parse_points (fill_buffer buf got2) n;
                       first_wpt = track_wpt (start_east th) (start_north th) None None
                   in (case read_track_loop th 0 points (start_east th) (start_north th)
                              [first_wpt] of
                         Inl e \<Rightarrow> Inl e
                       | Inr wpts \<Rightarrow>
                           Inr (fin2,
                                st\<lparr>tracks := tracks st @
                                     [\<lparr>rte_name = cstring (trk_name th),
                                       rte_num = trk_num th,
                                       waypoint_list = wpts\<rparr>]\<rparr>))))"
proof -
  have r: "gbfread 1 sizeof_trk_header fin =
      (sizeof_trk_header, take sizeof_trk_header (avail fin),
       fin\<lparr>pos := pos fin + sizeof_trk_header\<rparr>)"
    using assms gbfread_whole [of 1 sizeof_trk_header fin] by (simp add: sizes)
  have l: "length (take sizeof_trk_header (avail fin)) =
      length (replicate sizeof_trk_header (0::byte))"
    using assms by simp
  have nz: "sizeof_trk_header \<noteq> 0" by (simp add: sizes)
  show ?thesis
    unfolding humminbird_read_track_def r adjust_num_points_def
    by (simp only: prod.case fill_buffer_whole [OF l] nz if_False Let_def)
qed

lemma read_track_whole:
  assumes hdr: "sizeof_trk_header \<le> length (avail fin)"
    and th: "th = adjust_num_points (parse_trk_header (take sizeof_trk_header (avail fin)))"
    and n: "unat (num_points th) \<le> max_points"
    and body: "body = take (sizeof_trk_point * (unat (num_points th) - 1))
                        (drop sizeof_trk_header (avail fin))"
    and one: "sizeof_trk_point \<le> length body"
    and raw: "raw = parse_points (fill_buffer (replicate (sizeof_trk_point * unat (num_points th)) 0)
                body) (unat (num_points th))"
  shows "humminbird_read_track fin st =
     Inr (fin\<lparr>pos := pos fin + sizeof_trk_header + length body\<rparr>,
          st\<lparr>tracks := tracks st @
               [\<lparr>rte_name = cstring (trk_name th), rte_num = trk_num th,
                 waypoint_list =
                   track_wpt (start_east th) (start_north th) None None #
                   track_wpts th raw 0 (unat (num_points th) - 1) (start_east th)
                     (start_north th)\<rparr>]\<rparr>)"
proof -
  let ?n = "unat (num_points th)"
  let ?fin1 = "fin\<lparr>pos := pos fin + sizeof_trk_header\<rparr>"
  from one body have n2: "2 \<le> ?n"
    by (cases "?n - 1") (auto simp add: sizes)
  then have mem: "nat ((int ?n - 1) mod 2 ^ 32) = ?n - 1"
    using n by (intro members_conv) (simp_all add: sizes)
  have g: "gbfread sizeof_trk_point (?n - 1) ?fin1 =
      (length body div sizeof_trk_point, body, ?fin1\<lparr>pos := pos ?fin1 + length body\<rparr>)"
    using n2 gbfread_some [of sizeof_trk_point "?n - 1" ?fin1]
    by (simp add: sizes avail_after body)
  have lb: "length body \<le> sizeof_trk_point * ?n"
    using body by (simp add: sizes)
  have k2: "length body div sizeof_trk_point \<noteq> 0"
    using one by (simp add: sizes div_greater_zero_iff)
  have lr: "length raw = ?n" by (simp add: raw length_parse_points)
  have loop: "read_track_loop th 0 raw (start_east th) (start_north th)
       [track_wpt (start_east th) (start_north th) None None] =
     Inr ([track_wpt (start_east th) (start_north th) None None] @
          track_wpts th raw 0 (?n - 1) (start_east th) (start_north th))"
    using read_track_loop_filtered [OF filter_inv_start lr, of "?n - 1"] by simp
  show ?thesis
    unfolding read_track_header [OF hdr] th [symmetric] Let_def mem g
    using n lb k2 loop by (simp add: raw [symmetric] add.assoc)
qed

lemma length_ex_trk_header: "length (ex_trk_header hi lo) = 64"
  by (simp add: ex_trk_header_def)

lemma parse_ex_trk_header:
  "parse_trk_header (ex_trk_header hi lo) =
     \<lparr>trk_num = 1, num_points = push_bit 8 (ucast hi) OR ucast lo, trk_time = 0,
      start_east = 100, start_north = 200, end_east = 0, end_north = 0,
      sw_east = 0, sw_north = 0, ne_east = 0, ne_north = 0,
      trk_name = [84] @ replicate 19 0\<rparr>"
  by (simp add: parse_trk_header_def ex_trk_header_def be_read16_def be_read32_def nth_append)

lemma unat_adjust:
  "unat (num_points (adjust_num_points th0)) =
     (if unat (num_points th0) = max_points + 1 then max_points else unat (num_points th0))"
proof (cases "unat (num_points th0) = max_points + 1")
  case True
  have "num_points th0 = word_of_nat (unat (num_points th0))" by simp
  also have "\<dots> = 21836" unfolding True by (simp add: sizes)
  finally have "num_points th0 = 21836" .
  then show ?thesis by (simp add: adjust_num_points_def sizes)
next
  case False
  then show ?thesis by (simp add: adjust_num_points_def)
qed

text \<open>
  C6, as the code has it. The header struct is 64 bytes (the signature is not a member),
  so the capacity is \<open>(131080 - 4 - 64) div 6 = 21835\<close>. A stored count above 21836 is
  fatal. A stored count of 21836 is lowered to 21835; for the resulting count \<open>n\<close>, from 2
  to 21835, with the body in the stream, the decode reads exactly \<open>n - 1\<close> records of 6
  bytes after the header (the last slot of the array is never read from the stream) and
  the track has \<open>n\<close> points.
\<close>

theorem read_track_count:
  assumes "sizeof_trk_header \<le> length (avail fin)"
    and "n0 = unat (num_points (parse_trk_header (take sizeof_trk_header (avail fin))))"
  shows "max_points = 21835 \<and>
     (max_points + 1 < n0 \<longrightarrow>
        humminbird_read_track fin st = Inl (Too_many_track_points n0)) \<and>
     (n0 \<le> max_points + 1 \<longrightarrow> n = (if n0 = max_points + 1 then n0 - 1 else n0) \<longrightarrow> 2 \<le> n \<longrightarrow>
      sizeof_trk_point * (n - 1) \<le> length (avail fin) - sizeof_trk_header \<longrightarrow>
        (\<exists>trk. humminbird_read_track fin st =
            Inr (fin\<lparr>pos := pos fin + sizeof_trk_header + sizeof_trk_point * (n - 1)\<rparr>,
                 st\<lparr>tracks := tracks st @ [trk]\<rparr>) \<and>
          length (waypoint_list trk) = n))"
proof (intro conjI impI)
  show "max_points = 21835" by (rule sizes)
next
  assume big: "max_points + 1 < n0"
  let ?th = "adjust_num_points (parse_trk_header (take sizeof_trk_header (avail fin)))"
  have "unat (num_points ?th) = n0"
    using big assms(2) by (simp add: unat_adjust)
  with big show "humminbird_read_track fin st = Inl (Too_many_track_points n0)"
    by (simp add: read_track_header [OF assms(1)] Let_def)
next
  assume le: "n0 \<le> max_points + 1" and n: "n = (if n0 = max_points + 1 then n0 - 1 else n0)"
    and n2: "2 \<le> n"
    and av: "sizeof_trk_point * (n - 1) \<le> length (avail fin) - sizeof_trk_header"
  define th where "th = adjust_num_points (parse_trk_header (take sizeof_trk_header (avail fin)))"
  define body where "body = take (sizeof_trk_point * (unat (num_points th) - 1))
                        (drop sizeof_trk_header (avail fin))"
  define raw where "raw = parse_points
      (fill_buffer (replicate (sizeof_trk_point * unat (num_points th)) 0) body)
      (unat (num_points th))"
  have un: "unat (num_points th) = n"
    using n assms(2) by (simp add: th_def unat_adjust)
  have nm: "unat (num_points th) \<le> max_points"
    using un n le by (simp split: if_splits)
  have lb: "length body = sizeof_trk_point * (n - 1)"
    using av by (simp add: body_def un)
  have one: "sizeof_trk_point \<le> length body"
    using n2 unfolding lb by (cases "n - 1") simp_all
  note w = read_track_whole [OF assms(1) th_def nm body_def one raw_def, of st]
  let ?trk = "\<lparr>rte_name = cstring (trk_name th), rte_num = trk_num th,
      waypoint_list = track_wpt (start_east th) (start_north th) None None #
        track_wpts th raw 0 (unat (num_points th) - 1) (start_east th) (start_north th)\<rparr>"
  have "length (waypoint_list ?trk) = n"
    using n2 by (simp add: length_track_wpts un)
  then show "\<exists>trk. humminbird_read_track fin st =
            Inr (fin\<lparr>pos := pos fin + sizeof_trk_header + sizeof_trk_point * (n - 1)\<rparr>,
                 st\<lparr>tracks := tracks st @ [trk]\<rparr>) \<and>
          length (waypoint_list trk) = n"
    unfolding w lb by (intro exI [of _ ?trk] conjI refl)
qed

lemma ex_freak_avail: "sizeof_trk_header \<le> length (avail ex_freak_file)"
  by (simp add: ex_freak_file_def avail_def sizes length_ex_trk_header)

lemma ex_freak_header:
  "take sizeof_trk_header (avail ex_freak_file) = ex_trk_header 0 4"
  by (simp add: ex_freak_file_def avail_def sizes length_ex_trk_header)

lemma ex_65535_avail: "sizeof_trk_header \<le> length (avail ex_trk_file_65535)"
  by (simp add: ex_trk_file_65535_def avail_def sizes length_ex_trk_header)

lemma ex_65535_header:
  "take sizeof_trk_header (avail ex_trk_file_65535) = ex_trk_header 255 255"
  by (simp add: ex_trk_file_65535_def avail_def sizes length_ex_trk_header)

theorem read_track_count_witness:
  "sizeof_trk_header \<le> length (avail ex_trk_file_65535) \<and>
   max_points + 1 < unat (num_points (parse_trk_header
      (take sizeof_trk_header (avail ex_trk_file_65535)))) \<and>
   humminbird_read_track ex_trk_file_65535 reader0 = Inl (Too_many_track_points 65535) \<and>
   sizeof_trk_header \<le> length (avail ex_freak_file) \<and>
   unat (num_points (parse_trk_header (take sizeof_trk_header (avail ex_freak_file)))) = 4 \<and>
   (\<exists>trk. humminbird_read_track ex_freak_file reader0 =
       Inr (ex_freak_file\<lparr>pos := 82\<rparr>, reader0\<lparr>tracks := [trk]\<rparr>) \<and>
     length (waypoint_list trk) = 4)"
proof -
  have a: "unat (num_points (parse_trk_header
      (take sizeof_trk_header (avail ex_trk_file_65535)))) = 65535"
    by (simp add: ex_65535_header parse_ex_trk_header)
  have b: "unat (num_points (parse_trk_header (take sizeof_trk_header (avail ex_freak_file)))) = 4"
    by (simp add: ex_freak_header parse_ex_trk_header)
  have c: "length (avail ex_freak_file) = 82"
    by (simp add: ex_freak_file_def avail_def length_ex_trk_header)
  have m: "max_points + 1 < 65535" by (simp add: sizes)
  have f: "humminbird_read_track ex_trk_file_65535 reader0 = Inl (Too_many_track_points 65535)"
    using read_track_count [OF ex_65535_avail a [symmetric], where n = 0 and st = reader0] m
    by blast
  have h: "4 \<le> max_points + 1" "(4::nat) = (if 4 = max_points + 1 then 4 - 1 else 4)"
    "2 \<le> (4::nat)" "sizeof_trk_point * (4 - 1) \<le> length (avail ex_freak_file) - sizeof_trk_header"
    by (simp_all add: sizes c)
  have p: "pos ex_freak_file + sizeof_trk_header + sizeof_trk_point * (4 - 1) = 82"
    by (simp add: sizes ex_freak_file_def)
  have t: "tracks reader0 = []" by (simp add: reader0_def)
  have g: "\<exists>trk. humminbird_read_track ex_freak_file reader0 =
       Inr (ex_freak_file\<lparr>pos := 82\<rparr>, reader0\<lparr>tracks := [trk]\<rparr>) \<and>
     length (waypoint_list trk) = 4"
    using read_track_count [OF ex_freak_avail b [symmetric], where n = 4 and st = reader0] h
    unfolding p t append_Nil by blast
  show ?thesis
    using ex_65535_avail ex_freak_avail m f g unfolding a b by blast
qed

lemma upt4: "[0..<4] = [0, 1, 2, 3::nat]"
  by code_simp

lemma ex_freak_raw:
  "parse_points (fill_buffer (replicate 24 0)
     [127,255, 0,5, 0,0,  128,0, 127,255, 0,0,  0,0, 128,0, 0,0]) 4 = ex_freak_points"
  by (simp add: parse_points_def fill_buffer_def upt4 be_read16_def ex_freak_points_def)

lemma ex_freak_filtered:
  "freak_east ex_freak_points 0" "freak_north ex_freak_points 1"
  "filtered_east ex_freak_points 0 = - 1" "filtered_east ex_freak_points 1 = 0"
  "filtered_east ex_freak_points 2 = 0"
  "filtered_north ex_freak_points 0 = 5" "filtered_north ex_freak_points 1 = - 1"
  "filtered_north ex_freak_points 2 = 0"
  "filtered_east ex_freak_points (Suc 0) = 0" "filtered_north ex_freak_points (Suc 0) = - 1"
  by (simp_all add: filtered_east_def filtered_north_def freak_east_def freak_north_def
      ex_freak_points_def)

lemma ex_freak_naive:
  "map (\<lambda>k. (naive_east 100 ex_freak_points k, naive_north 200 ex_freak_points k)) [0, 1, 2] =
     [(32867, 205), (99, 32972), (99, 204)]"
proof -
  have u: "[0..<Suc 0] = [0]" "[0..<2] = [0, 1::nat]" "[0..<3] = [0, 1, 2::nat]"
    by code_simp+
  show ?thesis
    by (simp add: naive_east_def naive_north_def u ex_freak_points_def)
qed

theorem read_track_freak_values_witness:
  "length ex_freak_points = unat (num_points (parse_trk_header (ex_trk_header 0 4))) \<and>
   freak_east ex_freak_points 0 \<and> freak_north ex_freak_points 1 \<and>
   (\<exists>wpts. read_track_loop (parse_trk_header (ex_trk_header 0 4)) 0 ex_freak_points 100 200 [] =
        Inr wpts \<and>
      map (\<lambda>w. (east w, north w)) wpts = [(99, 205), (99, 204), (99, 204)]) \<and>
   map (\<lambda>k. (naive_east 100 ex_freak_points k, naive_north 200 ex_freak_points k)) [0, 1, 2] =
     [(32867, 205), (99, 32972), (99, 204)]"
proof -
  let ?th = "parse_trk_header (ex_trk_header 0 4)"
  have n: "unat (num_points ?th) = 4" by (simp add: parse_ex_trk_header)
  have l: "length ex_freak_points = unat (num_points ?th)"
    by (simp add: n ex_freak_points_def)
  from read_track_freak_values [OF l, of 100 200 "[]"]
  obtain wpts where r: "read_track_loop ?th 0 ex_freak_points 100 200 [] = Inr ([] @ wpts)"
    and lw: "length wpts = unat (num_points ?th) - 1"
    and k: "\<forall>k. k + 1 < unat (num_points ?th) \<longrightarrow>
        east (wpts ! k) =
          (if k = 0 then 100 else east (wpts ! (k - 1))) + scast (filtered_east ex_freak_points k) \<and>
        north (wpts ! k) =
          (if k = 0 then 200 else north (wpts ! (k - 1))) +
          scast (filtered_north ex_freak_points k) \<and>
        (freak_east ex_freak_points k \<longrightarrow>
           filtered_east ex_freak_points k = - 1 \<and> filtered_east ex_freak_points (k + 1) = 0) \<and>
        (freak_north ex_freak_points k \<longrightarrow>
           filtered_north ex_freak_points k = - 1 \<and> filtered_north ex_freak_points (k + 1) = 0) \<and>
        east (wpts ! k) =
          naive_east 100 ex_freak_points k - (if freak_east ex_freak_points k then 32768 else 0) \<and>
        north (wpts ! k) =
          naive_north 200 ex_freak_points k -
          (if freak_north ex_freak_points k then 32768 else 0)"
    by (elim exE conjE)
  from lw n obtain a b c where w: "wpts = [a, b, c]"
    by (auto simp add: length_Suc_conv numeral_3_eq_3)
  have k0: "east a = 99 \<and> north a = 205"
    using k [rule_format, of 0] by (simp add: n w ex_freak_filtered)
  have k1: "east b = 99 \<and> north b = 204"
    using k [rule_format, of 1] k0 by (simp add: n w ex_freak_filtered)
  have k2: "east c = 99 \<and> north c = 204"
    using k [rule_format, of 2] k1 by (simp add: n w ex_freak_filtered)
  have "map (\<lambda>w. (east w, north w)) wpts = [(99, 205), (99, 204), (99, 204)]"
    using k0 k1 k2 by (simp add: w)
  with r have "\<exists>wpts. read_track_loop ?th 0 ex_freak_points 100 200 [] = Inr wpts \<and>
      map (\<lambda>w. (east w, north w)) wpts = [(99, 205), (99, 204), (99, 204)]"
    by (intro exI [of _ wpts]) simp
  with l ex_freak_filtered(1,2) ex_freak_naive show ?thesis by (intro conjI)
qed

lemma ex_freak_body:
  "take (sizeof_trk_point * (4 - 1)) (drop sizeof_trk_header (avail ex_freak_file)) =
     [127,255, 0,5, 0,0,  128,0, 127,255, 0,0,  0,0, 128,0, 0,0]"
  by (simp add: ex_freak_file_def avail_def sizes length_ex_trk_header)

lemma ex_freak_th:
  "adjust_num_points (parse_trk_header (take sizeof_trk_header (avail ex_freak_file))) =
     parse_trk_header (ex_trk_header 0 4)"
  unfolding ex_freak_header by (simp add: adjust_num_points_def parse_ex_trk_header sizes)

lemma ex_freak_decode:
  "humminbird_read_track ex_freak_file reader0 =
     Inr (ex_freak_file\<lparr>pos := 82\<rparr>,
          reader0\<lparr>tracks :=
            [\<lparr>rte_name = [84], rte_num = 1,
              waypoint_list = [track_wpt 100 200 None None, track_wpt 99 205 None None,
                               track_wpt 99 204 None None, track_wpt 99 204 None None]\<rparr>]\<rparr>)"
proof -
  let ?th = "parse_trk_header (ex_trk_header 0 4)"
  have n: "unat (num_points ?th) = 4" by (simp add: parse_ex_trk_header)
  have nm: "unat (num_points ?th) \<le> max_points" by (simp add: n sizes)
  have b: "[127,255, 0,5, 0,0,  128,0, 127,255, 0,0,  0,0, 128,0, 0,0] =
      take (sizeof_trk_point * (unat (num_points ?th) - 1))
        (drop sizeof_trk_header (avail ex_freak_file))"
    unfolding n by (rule ex_freak_body [symmetric])
  have r: "ex_freak_points = parse_points
      (fill_buffer (replicate (sizeof_trk_point * unat (num_points ?th)) 0)
         [127,255, 0,5, 0,0,  128,0, 127,255, 0,0,  0,0, 128,0, 0,0]) (unat (num_points ?th))"
    unfolding n using ex_freak_raw by (simp add: sizes)
  have w: "track_wpts ?th ex_freak_points 0 (unat (num_points ?th) - 1) 100 200 =
      [track_wpt 99 205 None None, track_wpt 99 204 None None, track_wpt 99 204 None None]"
    unfolding n
    by (simp add: numeral_3_eq_3 filtered_east_def filtered_north_def freak_east_def
        freak_north_def ex_freak_points_def parse_ex_trk_header)
  have s: "start_east ?th = 100" "start_north ?th = 200" "trk_num ?th = 1"
    "cstring (trk_name ?th) = [84]"
    by (simp_all add: parse_ex_trk_header cstring_def)
  show ?thesis
    using read_track_whole [OF ex_freak_avail ex_freak_th [symmetric] nm b _ r, of reader0]
    unfolding w s by (simp add: sizes reader0_def ex_freak_file_def)
qed

text \<open>
  The claim's difference of exactly 1 does not occur: decoding \<open>ex_freak_file\<close> gives the
  coordinates on the first line, the running sums of the file's own deltas are those on
  the second; they differ by 32768 at the first record of a pair and by 0 elsewhere.
\<close>

theorem read_track_freak_not_one:
  "map_sum id (\<lambda>(f, st). map (\<lambda>t. map (\<lambda>w. (east w, north w)) (waypoint_list t)) (tracks st))
     (humminbird_read_track ex_freak_file reader0) =
     Inr [[(100, 200), (99, 205), (99, 204), (99, 204)]] \<and>
   map (\<lambda>k. (naive_east 100 ex_freak_points k, naive_north 200 ex_freak_points k)) [0, 1, 2] =
     [(32867, 205), (99, 32972), (99, 204)]"
  unfolding ex_freak_decode ex_freak_naive by (simp add: track_wpt_def)

lemma ex_21836_avail: "sizeof_trk_header \<le> length (avail ex_trk_file_21836)"
  by (simp add: ex_trk_file_21836_def avail_def sizes length_ex_trk_header)

lemma ex_21836_header:
  "take sizeof_trk_header (avail ex_trk_file_21836) = ex_trk_header 85 76"
  by (simp add: ex_trk_file_21836_def avail_def sizes length_ex_trk_header)

text \<open>
  With the claim's capacity of 21834 a stored count of 21836 would be fatal (and 21835
  would be lowered to 21834). The code lowers 21836 to 21835 and reads 21834 records.
\<close>

theorem read_track_21836_not_fatal:
  "unat (num_points (parse_trk_header (take sizeof_trk_header (avail ex_trk_file_21836)))) =
     21836 \<and>
   map_sum id (\<lambda>(f, st). (pos f, map (\<lambda>t. length (waypoint_list t)) (tracks st)))
     (humminbird_read_track ex_trk_file_21836 reader0) = Inr (64 + 6 * 21834, [21835])"
proof -
  define th where
    "th = adjust_num_points (parse_trk_header (take sizeof_trk_header (avail ex_trk_file_21836)))"
  define body where "body = take (sizeof_trk_point * (unat (num_points th) - 1))
      (drop sizeof_trk_header (avail ex_trk_file_21836))"
  have n0: "unat (num_points (parse_trk_header
      (take sizeof_trk_header (avail ex_trk_file_21836)))) = 21836"
    unfolding ex_21836_header by (simp add: parse_ex_trk_header)
  have n: "unat (num_points th) = 21835"
    unfolding th_def unat_adjust n0 by (simp add: sizes)
  have nm: "unat (num_points th) \<le> max_points" by (simp add: n sizes)
  have lb: "length body = 131004"
    by (simp add: body_def n sizes ex_trk_file_21836_def avail_def length_ex_trk_header)
  have one: "sizeof_trk_point \<le> length body" by (simp add: lb sizes)
  show ?thesis
    unfolding read_track_whole [OF ex_21836_avail th_def nm body_def one refl] n0
    by (simp add: lb n length_track_wpts sizes reader0_def ex_trk_file_21836_def)
qed

subsection \<open>Track records (old format)\<close>

declare read_track_old_loop.simps [simp del]

declare humminbird_read.simps [simp del]


























subsection \<open>The read dispatcher\<close>

lemma magics_distinct:
  "TRK_MAGIC \<noteq> WPT_MAGIC" "TRK_MAGIC \<noteq> WPT_MAGIC2" "TRK_MAGIC \<noteq> RTE_MAGIC"
  "TRK_MAGIC2 \<noteq> WPT_MAGIC" "TRK_MAGIC2 \<noteq> WPT_MAGIC2" "TRK_MAGIC2 \<noteq> RTE_MAGIC"
  "TRK_MAGIC2 \<noteq> TRK_MAGIC" "RTE_MAGIC \<noteq> WPT_MAGIC" "RTE_MAGIC \<noteq> WPT_MAGIC2"
  by (simp_all add: TRK_MAGIC_def TRK_MAGIC2_def WPT_MAGIC_def WPT_MAGIC2_def RTE_MAGIC_def)

lemma humminbird_read_eof:
  "gbfeof fin \<Longrightarrow> humminbird_read icons namebuf fin st = Inr (fin, st)"
  by (subst humminbird_read.simps) simp

lemma humminbird_read_signature:
  assumes "\<not> gbfeof fin" "gbfgetuint32 fin = Inr (signature, fin1)"
  shows "humminbird_read icons namebuf fin st =
     (if signature = WPT_MAGIC \<or> signature = WPT_MAGIC2 then
        (case humminbird_read_wpt icons fin1 st of
           Inl e \<Rightarrow> Inl e
         | Inr (fin2, st2) \<Rightarrow> humminbird_read icons namebuf fin2 st2)
      else if signature = RTE_MAGIC then
        (case humminbird_read_route fin1 st of
           Inl e \<Rightarrow> Inl e
         | Inr (fin2, st2) \<Rightarrow> humminbird_read icons namebuf fin2 st2)
      else if signature = TRK_MAGIC then humminbird_read_track fin1 st
      else if signature = TRK_MAGIC2 then humminbird_read_track_old namebuf fin1 st
      else Inl (Invalid_record_header signature))"
  using assms by (subst humminbird_read.simps) simp

lemma take_drop_append_left:
  "p + L \<le> length c \<Longrightarrow> take L (drop p (c @ e)) = take L (drop p c)"
  by simp

lemma read_track_ignores_rest:
  assumes hdr: "p + sizeof_trk_header \<le> length c"
    and th: "th = adjust_num_points (parse_trk_header (take sizeof_trk_header (drop p c)))"
    and n: "2 \<le> unat (num_points th)" "unat (num_points th) \<le> max_points"
    and body: "p + sizeof_trk_header + sizeof_trk_point * (unat (num_points th) - 1) \<le> length c"
  shows "humminbird_read_track \<lparr>contents = c @ extra, pos = p\<rparr> st =
     map_sum id (\<lambda>(f, s). (f\<lparr>contents := c @ extra\<rparr>, s))
       (humminbird_read_track \<lparr>contents = c, pos = p\<rparr> st)"
proof -
  let ?f = "\<lparr>contents = c, pos = p\<rparr>" and ?f' = "\<lparr>contents = c @ extra, pos = p\<rparr>"
  let ?L = "sizeof_trk_point * (unat (num_points th) - 1)"
  define body where "body = take ?L (drop sizeof_trk_header (avail ?f))"
  have h: "take sizeof_trk_header (avail ?f') = take sizeof_trk_header (avail ?f)"
    using hdr by (simp add: avail_def)
  have b: "take ?L (drop sizeof_trk_header (avail ?f')) = body"
    using body hdr by (simp add: avail_def body_def)
  have a: "sizeof_trk_header \<le> length (avail ?f)" "sizeof_trk_header \<le> length (avail ?f')"
    using hdr by (simp_all add: avail_def)
  have th1: "th = adjust_num_points (parse_trk_header (take sizeof_trk_header (avail ?f)))"
    using th by (simp add: avail_def)
  have th2: "th = adjust_num_points (parse_trk_header (take sizeof_trk_header (avail ?f')))"
    unfolding h by (rule th1)
  have lb: "length body = ?L"
    using body by (simp add: body_def avail_def)
  have one: "sizeof_trk_point \<le> length body"
    using n(1) unfolding lb by (cases "unat (num_points th) - 1") simp_all
  show ?thesis
    unfolding read_track_whole [OF a(1) th1 n(2) body_def one refl]
      read_track_whole [OF a(2) th2 n(2) b [symmetric] one refl]
    by simp
qed

lemma gbfgetuint32_ok:
  "4 \<le> length (avail fin) \<Longrightarrow>
   gbfgetuint32 fin = Inr (be_read32 (avail fin) 0, fin\<lparr>pos := pos fin + 4\<rparr>)"
  by (simp add: gbfgetuint32_def)

lemma be_read32_append:
  "p + 4 \<le> length c \<Longrightarrow> be_read32 (drop p (c @ e)) 0 = be_read32 (drop p c) 0"
  by (auto simp add: be_read32_def nth_append)

text \<open>
  C9. \<^verbatim>\<open>humminbird_read\<close> returns at the end of the stream; otherwise it reads a 4-byte
  big-endian signature. A signature that is none of the five is fatal; a waypoint or a
  route record is decoded and the loop goes on; on either track signature the result is
  the result of that one track decode. After a new-format track nothing more is
  interpreted: whatever bytes \<open>extra\<close> follow the track record, the result is that of the
  stream without them, and the position stays at the end of the record.
\<close>

theorem humminbird_read_dispatch:
  "(gbfeof fin \<longrightarrow> humminbird_read icons namebuf fin st = Inr (fin, st)) \<and>
   (\<not> gbfeof fin \<longrightarrow> 4 \<le> length (avail fin) \<longrightarrow> signature = be_read32 (avail fin) 0 \<longrightarrow>
    fin1 = fin\<lparr>pos := pos fin + 4\<rparr> \<longrightarrow>
      (signature \<notin> {WPT_MAGIC, WPT_MAGIC2, RTE_MAGIC, TRK_MAGIC, TRK_MAGIC2} \<longrightarrow>
         humminbird_read icons namebuf fin st = Inl (Invalid_record_header signature)) \<and>
      (signature = TRK_MAGIC \<longrightarrow>
         humminbird_read icons namebuf fin st = humminbird_read_track fin1 st) \<and>
      (signature = TRK_MAGIC2 \<longrightarrow>
         humminbird_read icons namebuf fin st = humminbird_read_track_old namebuf fin1 st) \<and>
      (signature = WPT_MAGIC \<or> signature = WPT_MAGIC2 \<longrightarrow>
         humminbird_read icons namebuf fin st =
           (case humminbird_read_wpt icons fin1 st of
              Inl e \<Rightarrow> Inl e
            | Inr (fin2, st2) \<Rightarrow> humminbird_read icons namebuf fin2 st2)) \<and>
      (signature = RTE_MAGIC \<longrightarrow>
         humminbird_read icons namebuf fin st =
           (case humminbird_read_route fin1 st of
              Inl e \<Rightarrow> Inl e
            | Inr (fin2, st2) \<Rightarrow> humminbird_read icons namebuf fin2 st2))) \<and>
   (p + 4 + sizeof_trk_header \<le> length c \<longrightarrow> be_read32 (drop p c) 0 = TRK_MAGIC \<longrightarrow>
    th = adjust_num_points (parse_trk_header (take sizeof_trk_header (drop (p + 4) c))) \<longrightarrow>
    2 \<le> unat (num_points th) \<longrightarrow> unat (num_points th) \<le> max_points \<longrightarrow>
    p + 4 + sizeof_trk_header + sizeof_trk_point * (unat (num_points th) - 1) \<le> length c \<longrightarrow>
      humminbird_read icons namebuf \<lparr>contents = c @ extra, pos = p\<rparr> st =
        map_sum id (\<lambda>(f, s). (f\<lparr>contents := c @ extra\<rparr>, s))
          (humminbird_read_track \<lparr>contents = c, pos = p + 4\<rparr> st))"
proof (intro conjI impI)
  assume "gbfeof fin"
  then show "humminbird_read icons namebuf fin st = Inr (fin, st)"
    by (rule humminbird_read_eof)
next
  assume a: "\<not> gbfeof fin" "4 \<le> length (avail fin)" "signature = be_read32 (avail fin) 0"
    "fin1 = fin\<lparr>pos := pos fin + 4\<rparr>"
  then have g: "gbfgetuint32 fin = Inr (signature, fin1)"
    by (simp add: gbfgetuint32_ok)
  note s = humminbird_read_signature [OF a(1) g, of icons namebuf st]
  {
    assume "signature \<notin> {WPT_MAGIC, WPT_MAGIC2, RTE_MAGIC, TRK_MAGIC, TRK_MAGIC2}"
    then show "humminbird_read icons namebuf fin st = Inl (Invalid_record_header signature)"
      unfolding s by simp
  next
    assume "signature = TRK_MAGIC"
    then show "humminbird_read icons namebuf fin st = humminbird_read_track fin1 st"
      unfolding s using magics_distinct by simp
  next
    assume "signature = TRK_MAGIC2"
    then show "humminbird_read icons namebuf fin st = humminbird_read_track_old namebuf fin1 st"
      unfolding s using magics_distinct by simp
  next
    assume "signature = WPT_MAGIC \<or> signature = WPT_MAGIC2"
    then show "humminbird_read icons namebuf fin st =
           (case humminbird_read_wpt icons fin1 st of
              Inl e \<Rightarrow> Inl e
            | Inr (fin2, st2) \<Rightarrow> humminbird_read icons namebuf fin2 st2)"
      unfolding s by simp
  next
    assume "signature = RTE_MAGIC"
    then show "humminbird_read icons namebuf fin st =
           (case humminbird_read_route fin1 st of
              Inl e \<Rightarrow> Inl e
            | Inr (fin2, st2) \<Rightarrow> humminbird_read icons namebuf fin2 st2)"
      unfolding s using magics_distinct by simp
  }
next
  assume h: "p + 4 + sizeof_trk_header \<le> length c" and m: "be_read32 (drop p c) 0 = TRK_MAGIC"
    and th: "th = adjust_num_points (parse_trk_header (take sizeof_trk_header (drop (p + 4) c)))"
    and n: "2 \<le> unat (num_points th)" "unat (num_points th) \<le> max_points"
    and b: "p + 4 + sizeof_trk_header + sizeof_trk_point * (unat (num_points th) - 1) \<le> length c"
  let ?f' = "\<lparr>contents = c @ extra, pos = p\<rparr>"
  from h have p4: "p + 4 \<le> length c" by simp
  then have ne: "\<not> gbfeof ?f'" and l4: "4 \<le> length (avail ?f')"
    by (simp_all add: gbfeof_def avail_def)
  have sg: "be_read32 (avail ?f') 0 = TRK_MAGIC"
    using be_read32_append [OF p4, of extra] m by (simp add: avail_def)
  have g: "gbfgetuint32 ?f' = Inr (TRK_MAGIC, \<lparr>contents = c @ extra, pos = p + 4\<rparr>)"
    using gbfgetuint32_ok [OF l4] sg by simp
  have "humminbird_read icons namebuf ?f' st =
      humminbird_read_track \<lparr>contents = c @ extra, pos = p + 4\<rparr> st"
    unfolding humminbird_read_signature [OF ne g] using magics_distinct by simp
  also have "\<dots> = map_sum id (\<lambda>(f, s). (f\<lparr>contents := c @ extra\<rparr>, s))
          (humminbird_read_track \<lparr>contents = c, pos = p + 4\<rparr> st)"
    using h th n b by (intro read_track_ignores_rest) (simp_all add: add.assoc)
  finally show "humminbird_read icons namebuf ?f' st =
        map_sum id (\<lambda>(f, s). (f\<lparr>contents := c @ extra\<rparr>, s))
          (humminbird_read_track \<lparr>contents = c, pos = p + 4\<rparr> st)" .
qed

lemma ex_freak_decode_any:
  assumes "avail f = ex_trk_header 0 4 @
      [127,255, 0,5, 0,0,  128,0, 127,255, 0,0,  0,0, 128,0, 0,0]"
  shows "humminbird_read_track f st =
     Inr (f\<lparr>pos := pos f + 82\<rparr>,
          st\<lparr>tracks := tracks st @
            [\<lparr>rte_name = [84], rte_num = 1,
              waypoint_list = [track_wpt 100 200 None None, track_wpt 99 205 None None,
                               track_wpt 99 204 None None, track_wpt 99 204 None None]\<rparr>]\<rparr>)"
proof -
  let ?th = "parse_trk_header (ex_trk_header 0 4)"
  have a: "sizeof_trk_header \<le> length (avail f)"
    unfolding assms by (simp add: sizes length_ex_trk_header)
  have hd: "take sizeof_trk_header (avail f) = ex_trk_header 0 4"
    unfolding assms by (simp add: sizes length_ex_trk_header)
  have th: "?th = adjust_num_points (parse_trk_header (take sizeof_trk_header (avail f)))"
    unfolding hd by (simp add: adjust_num_points_def parse_ex_trk_header sizes)
  have n: "unat (num_points ?th) = 4" by (simp add: parse_ex_trk_header)
  have nm: "unat (num_points ?th) \<le> max_points" by (simp add: n sizes)
  have b: "[127,255, 0,5, 0,0,  128,0, 127,255, 0,0,  0,0, 128,0, 0,0] =
      take (sizeof_trk_point * (unat (num_points ?th) - 1))
        (drop sizeof_trk_header (avail f))"
    unfolding n assms by (simp add: sizes length_ex_trk_header)
  have r: "ex_freak_points = parse_points
      (fill_buffer (replicate (sizeof_trk_point * unat (num_points ?th)) 0)
         [127,255, 0,5, 0,0,  128,0, 127,255, 0,0,  0,0, 128,0, 0,0]) (unat (num_points ?th))"
    unfolding n using ex_freak_raw by (simp add: sizes)
  have w: "track_wpts ?th ex_freak_points 0 (unat (num_points ?th) - 1) 100 200 =
      [track_wpt 99 205 None None, track_wpt 99 204 None None, track_wpt 99 204 None None]"
    unfolding n
    by (simp add: numeral_3_eq_3 filtered_east_def filtered_north_def freak_east_def
        freak_north_def ex_freak_points_def parse_ex_trk_header)
  have s: "start_east ?th = 100" "start_north ?th = 200" "trk_num ?th = 1"
    "cstring (trk_name ?th) = [84]"
    by (simp_all add: parse_ex_trk_header cstring_def)
  show ?thesis
    using read_track_whole [OF a th nm b _ r, of st]
    unfolding w s by (simp add: sizes)
qed

lemma ex_hwr_read_wpt:
  "humminbird_read_wpt [''Normal'', ''House''] (ex_hwr_file\<lparr>pos := 4\<rparr>) reader0 =
     Inr (ex_hwr_file\<lparr>pos := 36\<rparr>,
          reader0\<lparr>waypts := [ex_hwr_wpt], wpt_num_to_wpt_hash := [7 \<mapsto> ex_hwr_wpt]\<rparr>)"
  by (simp add: humminbird_read_wpt_def gbfread_def avail_def ex_hwr_file_def ex_hwr_records_def
      sizes fill_buffer_def parse_waypt_def waypt_of_def be_read16_def be_read32_def cstring_def
      WPT_NAME_LEN_def Let_def reader0_def ex_hwr_wpt_def)

lemma ex_rte_hwr_route:
  "humminbird_read_route (ex_rte_hwr_file\<lparr>pos := 4\<rparr>) ex_reader =
     Inr (ex_rte_hwr_file\<lparr>pos := 136\<rparr>,
          ex_reader\<lparr>routes := [\<lparr>rte_name = [82], rte_num = 0,
                                 waypoint_list = [ex_wpt5, ex_wpt7]\<rparr>]\<rparr>)"
proof -
  have av: "avail (ex_rte_hwr_file\<lparr>pos := 4\<rparr>) = avail ex_rte_file"
    by (simp add: avail_def ex_rte_hwr_file_def ex_rte_file_def)
  have a: "sizeof_rte \<le> length (avail (ex_rte_hwr_file\<lparr>pos := 4\<rparr>))"
    unfolding av by (rule ex_rte_avail)
  show ?thesis
    unfolding read_route_whole [OF a] av ex_rte_parse Let_def
    by (simp add: read_route_loop.simps be_read16_def ex_reader_def reader0_def route_sizes
        route_add_wpt_def cstring_def sizes)
qed

lemma length_ex_hwr_records: "length ex_hwr_records = 122"
  by (simp add: ex_hwr_records_def length_ex_trk_header)

theorem humminbird_read_dispatch_witness:
  "gbfeof ex_empty_file \<and>
   humminbird_read [] [] ex_empty_file reader0 = Inr (ex_empty_file, reader0) \<and>
   \<not> gbfeof ex_bad_file \<and> 4 \<le> length (avail ex_bad_file) \<and>
   be_read32 (avail ex_bad_file) 0 \<notin> {WPT_MAGIC, WPT_MAGIC2, RTE_MAGIC, TRK_MAGIC, TRK_MAGIC2} \<and>
   humminbird_read [] [] ex_bad_file reader0 = Inl (Invalid_record_header 0) \<and>
   \<not> gbfeof ex_hwr_file \<and> be_read32 (avail ex_hwr_file) 0 = WPT_MAGIC \<and>
   be_read32 (drop 36 ex_hwr_records) 0 = TRK_MAGIC \<and>
   length (contents ex_hwr_file) = 126 \<and>
   be_read32 (avail (ex_old_file\<lparr>pos := 0\<rparr>)) 0 = TRK_MAGIC2 \<and>
   humminbird_read [] (replicate 20 0) (ex_old_file\<lparr>pos := 0\<rparr>) reader0 =
     humminbird_read_track_old (replicate 20 0) ex_old_file reader0 \<and>
   be_read32 (avail ex_rte_hwr_file) 0 = RTE_MAGIC \<and>
   humminbird_read [] [] ex_rte_hwr_file ex_reader =
     Inr (ex_rte_hwr_file\<lparr>pos := 136\<rparr>,
          ex_reader\<lparr>routes := [\<lparr>rte_name = [82], rte_num = 0,
                                 waypoint_list = [ex_wpt5, ex_wpt7]\<rparr>]\<rparr>) \<and>
   humminbird_read [''Normal'', ''House''] [] ex_hwr_file reader0 =
     Inr (ex_hwr_file\<lparr>pos := 122\<rparr>,
          reader0\<lparr>waypts := [ex_hwr_wpt], wpt_num_to_wpt_hash := [7 \<mapsto> ex_hwr_wpt],
                  tracks :=
            [\<lparr>rte_name = [84], rte_num = 1,
              waypoint_list = [track_wpt 100 200 None None, track_wpt 99 205 None None,
                               track_wpt 99 204 None None, track_wpt 99 204 None None]\<rparr>]\<rparr>)"
proof -
  let ?icons = "[''Normal'', ''House'']"
  let ?st2 = "reader0\<lparr>waypts := [ex_hwr_wpt], wpt_num_to_wpt_hash := [7 \<mapsto> ex_hwr_wpt]\<rparr>"
  let ?extra = "[255,255,255,255] :: byte list"
  \<comment> \<open>end of stream\<close>
  have e1: "gbfeof ex_empty_file" by (simp add: gbfeof_def ex_empty_file_def)
  have e2: "humminbird_read [] [] ex_empty_file reader0 = Inr (ex_empty_file, reader0)"
    using humminbird_read_dispatch [of ex_empty_file "[]" "[]" reader0] e1 by blast
  \<comment> \<open>an unknown signature\<close>
  have b1: "\<not> gbfeof ex_bad_file" "4 \<le> length (avail ex_bad_file)"
    by (simp_all add: gbfeof_def avail_def ex_bad_file_def)
  have b2: "be_read32 (avail ex_bad_file) 0 = 0"
    by (simp add: avail_def ex_bad_file_def be_read32_def)
  have b3: "be_read32 (avail ex_bad_file) 0 \<notin>
      {WPT_MAGIC, WPT_MAGIC2, RTE_MAGIC, TRK_MAGIC, TRK_MAGIC2}"
    unfolding b2
    by (simp add: TRK_MAGIC_def TRK_MAGIC2_def WPT_MAGIC_def WPT_MAGIC2_def RTE_MAGIC_def)
  have b4: "humminbird_read [] [] ex_bad_file reader0 = Inl (Invalid_record_header 0)"
    using humminbird_read_dispatch [of ex_bad_file "[]" "[]" reader0
        "be_read32 (avail ex_bad_file) 0" "ex_bad_file\<lparr>pos := pos ex_bad_file + 4\<rparr>"]
      b1 b3 unfolding b2 by blast
  \<comment> \<open>a waypoint, a track, and four bytes that are never read\<close>
  have h1: "\<not> gbfeof ex_hwr_file" "4 \<le> length (avail ex_hwr_file)"
    by (simp_all add: gbfeof_def avail_def ex_hwr_file_def length_ex_hwr_records)
  have h2: "be_read32 (avail ex_hwr_file) 0 = WPT_MAGIC"
    by (simp add: avail_def ex_hwr_file_def ex_hwr_records_def be_read32_def WPT_MAGIC_def)
  have h3: "ex_hwr_file\<lparr>pos := pos ex_hwr_file + 4\<rparr> = ex_hwr_file\<lparr>pos := 4\<rparr>"
    by (simp add: ex_hwr_file_def)
  have s1: "humminbird_read ?icons [] ex_hwr_file reader0 =
      humminbird_read ?icons [] (ex_hwr_file\<lparr>pos := 36\<rparr>) ?st2"
    using humminbird_read_dispatch [of ex_hwr_file ?icons "[]" reader0 WPT_MAGIC
        "ex_hwr_file\<lparr>pos := 4\<rparr>"] h1 h2 h3
    by (simp add: ex_hwr_read_wpt)
  have f2: "ex_hwr_file\<lparr>pos := 36\<rparr> = \<lparr>contents = ex_hwr_records @ ?extra, pos = 36\<rparr>"
    by (simp add: ex_hwr_file_def)
  have t1: "be_read32 (drop 36 ex_hwr_records) 0 = TRK_MAGIC"
    by (simp add: ex_hwr_records_def be_read32_def TRK_MAGIC_def)
  have t2: "take sizeof_trk_header (drop (36 + 4) ex_hwr_records) = ex_trk_header 0 4"
    by (simp add: ex_hwr_records_def sizes length_ex_trk_header)
  have t3: "parse_trk_header (ex_trk_header 0 4) =
      adjust_num_points (parse_trk_header (take sizeof_trk_header (drop (36 + 4) ex_hwr_records)))"
    unfolding t2 by (simp add: adjust_num_points_def parse_ex_trk_header sizes)
  have n: "unat (num_points (parse_trk_header (ex_trk_header 0 4))) = 4"
    by (simp add: parse_ex_trk_header)
  have t4: "36 + 4 + sizeof_trk_header \<le> length ex_hwr_records"
    "2 \<le> unat (num_points (parse_trk_header (ex_trk_header 0 4)))"
    "unat (num_points (parse_trk_header (ex_trk_header 0 4))) \<le> max_points"
    "36 + 4 + sizeof_trk_header +
       sizeof_trk_point * (unat (num_points (parse_trk_header (ex_trk_header 0 4))) - 1)
     \<le> length ex_hwr_records"
    unfolding n by (simp_all add: sizes length_ex_hwr_records)
  have av: "avail \<lparr>contents = ex_hwr_records, pos = 36 + 4\<rparr> =
      ex_trk_header 0 4 @ [127,255, 0,5, 0,0,  128,0, 127,255, 0,0,  0,0, 128,0, 0,0]"
    by (simp add: avail_def ex_hwr_records_def)
  have s2: "humminbird_read ?icons [] \<lparr>contents = ex_hwr_records @ ?extra, pos = 36\<rparr> ?st2 =
      map_sum id (\<lambda>(f, s). (f\<lparr>contents := ex_hwr_records @ ?extra\<rparr>, s))
        (humminbird_read_track \<lparr>contents = ex_hwr_records, pos = 36 + 4\<rparr> ?st2)"
    using humminbird_read_dispatch [where c = ex_hwr_records and p = 36 and extra = ?extra
        and th = "parse_trk_header (ex_trk_header 0 4)" and icons = ?icons and namebuf = "[]"
        and st = ?st2] t1 t3 t4
    by blast
  have s3: "humminbird_read ?icons [] ex_hwr_file reader0 =
     Inr (ex_hwr_file\<lparr>pos := 122\<rparr>,
          reader0\<lparr>waypts := [ex_hwr_wpt], wpt_num_to_wpt_hash := [7 \<mapsto> ex_hwr_wpt],
                  tracks :=
            [\<lparr>rte_name = [84], rte_num = 1,
              waypoint_list = [track_wpt 100 200 None None, track_wpt 99 205 None None,
                               track_wpt 99 204 None None, track_wpt 99 204 None None]\<rparr>]\<rparr>)"
    unfolding s1 f2 s2 ex_freak_decode_any [OF av]
    by (simp add: ex_hwr_file_def reader0_def)
  have l: "length (contents ex_hwr_file) = 126"
    by (simp add: ex_hwr_file_def length_ex_hwr_records)
  \<comment> \<open>an old-format track\<close>
  have o1: "\<not> gbfeof (ex_old_file\<lparr>pos := 0\<rparr>)" "4 \<le> length (avail (ex_old_file\<lparr>pos := 0\<rparr>))"
    by (simp_all add: gbfeof_def avail_def ex_old_file_def)
  have o2: "be_read32 (avail (ex_old_file\<lparr>pos := 0\<rparr>)) 0 = TRK_MAGIC2"
    by (simp add: avail_def ex_old_file_def be_read32_def TRK_MAGIC2_def)
  have o3: "ex_old_file = ex_old_file\<lparr>pos := 0\<rparr>\<lparr>pos := pos (ex_old_file\<lparr>pos := 0\<rparr>) + 4\<rparr>"
    by (simp add: ex_old_file_def)
  have o4: "humminbird_read [] (replicate 20 0) (ex_old_file\<lparr>pos := 0\<rparr>) reader0 =
     humminbird_read_track_old (replicate 20 0) ex_old_file reader0"
    using humminbird_read_dispatch [of "ex_old_file\<lparr>pos := 0\<rparr>" "[]" "replicate 20 0" reader0
        TRK_MAGIC2 ex_old_file] o1 o2 [symmetric] o3
    by blast
  \<comment> \<open>a route, then the end of the stream\<close>
  have r1: "\<not> gbfeof ex_rte_hwr_file" "4 \<le> length (avail ex_rte_hwr_file)"
    by (simp_all add: gbfeof_def avail_def ex_rte_hwr_file_def ex_rte_file_def)
  have r2: "be_read32 (avail ex_rte_hwr_file) 0 = RTE_MAGIC"
    by (simp add: avail_def ex_rte_hwr_file_def be_read32_def RTE_MAGIC_def)
  have r3: "ex_rte_hwr_file\<lparr>pos := pos ex_rte_hwr_file + 4\<rparr> = ex_rte_hwr_file\<lparr>pos := 4\<rparr>"
    by (simp add: ex_rte_hwr_file_def)
  have r4: "gbfeof (ex_rte_hwr_file\<lparr>pos := 136\<rparr>)"
    by (simp add: gbfeof_def ex_rte_hwr_file_def ex_rte_file_def)
  have r5: "humminbird_read [] [] ex_rte_hwr_file ex_reader =
      humminbird_read [] [] (ex_rte_hwr_file\<lparr>pos := 136\<rparr>)
        (ex_reader\<lparr>routes := [\<lparr>rte_name = [82], rte_num = 0,
                                 waypoint_list = [ex_wpt5, ex_wpt7]\<rparr>]\<rparr>)"
    using humminbird_read_dispatch [of ex_rte_hwr_file "[]" "[]" ex_reader RTE_MAGIC
        "ex_rte_hwr_file\<lparr>pos := 4\<rparr>"] r1 r2 r3
    by (simp add: ex_rte_hwr_route)
  have r6: "humminbird_read [] [] ex_rte_hwr_file ex_reader =
     Inr (ex_rte_hwr_file\<lparr>pos := 136\<rparr>,
          ex_reader\<lparr>routes := [\<lparr>rte_name = [82], rte_num = 0,
                                 waypoint_list = [ex_wpt5, ex_wpt7]\<rparr>]\<rparr>)"
    unfolding r5
    using humminbird_read_dispatch [of "ex_rte_hwr_file\<lparr>pos := 136\<rparr>" "[]" "[]"] r4
    by blast
  from e1 e2 b1 b3 b4 h1(1) h2 t1 l o2 o4 r2 r6 s3 show ?thesis by (intro conjI)
qed

subsection \<open>The icon of a written waypoint\<close>

lemma length_be_write [simp]: "length (be_write16 v) = 2" "length (be_write32 w) = 4"
  by (simp_all add: be_write16_def be_write32_def)

lemma length_strncpy_field: "0 < n \<Longrightarrow> length (strncpy_field n name) = n"
  by (simp add: strncpy_field_def min_def)

lemma icon_compare_loop_none:
  "\<forall>j<length xs. \<not> compare_ci d (xs ! j) \<Longrightarrow> icon_compare_loop d xs i icon = icon"
proof (induction xs arbitrary: i)
  case Nil
  show ?case by simp
next
  case (Cons x xs)
  from Cons.prems have "\<not> compare_ci d x" by (auto dest: spec [of _ 0])
  moreover from Cons.prems have "\<forall>j<length xs. \<not> compare_ci d (xs ! j)"
    by (auto dest: spec [of _ "Suc _"])
  ultimately show ?case by (simp add: Cons.IH)
qed

lemma icon_compare_loop_first:
  "k < length xs \<Longrightarrow> compare_ci d (xs ! k) \<Longrightarrow> \<forall>j<k. \<not> compare_ci d (xs ! j) \<Longrightarrow>
   icon_compare_loop d xs i icon = word_of_nat (i + k)"
proof (induction xs arbitrary: i k)
  case Nil
  then show ?case by simp
next
  case (Cons x xs)
  show ?case
  proof (cases k)
    case 0
    with Cons.prems show ?thesis by simp
  next
    case (Suc k')
    with Cons.prems have "\<not> compare_ci d x" by (auto dest: spec [of _ 0])
    moreover from Cons.prems Suc have "k' < length xs" "compare_ci d (xs ! k')"
      "\<forall>j<k'. \<not> compare_ci d (xs ! j)"
      by (auto dest: spec [of _ "Suc _"])
    ultimately show ?thesis using Suc by (simp add: Cons.IH)
  qed
qed

lemma icon_contains_loop_none:
  "\<forall>j<length xs. \<not> contains_ci d (xs ! j) \<Longrightarrow> icon_contains_loop d xs i icon = icon"
proof (induction xs arbitrary: i)
  case Nil
  show ?case by simp
next
  case (Cons x xs)
  from Cons.prems have "\<not> contains_ci d x" by (auto dest: spec [of _ 0])
  moreover from Cons.prems have "\<forall>j<length xs. \<not> contains_ci d (xs ! j)"
    by (auto dest: spec [of _ "Suc _"])
  ultimately show ?case by (simp add: Cons.IH)
qed

lemma icon_contains_loop_first:
  "k < length xs \<Longrightarrow> contains_ci d (xs ! k) \<Longrightarrow> \<forall>j<k. \<not> contains_ci d (xs ! j) \<Longrightarrow>
   icon_contains_loop d xs i icon = word_of_nat (i + k)"
proof (induction xs arbitrary: i k)
  case Nil
  then show ?case by simp
next
  case (Cons x xs)
  show ?case
  proof (cases k)
    case 0
    with Cons.prems show ?thesis by simp
  next
    case (Suc k')
    with Cons.prems have "\<not> contains_ci d x" by (auto dest: spec [of _ 0])
    moreover from Cons.prems Suc have "k' < length xs" "contains_ci d (xs ! k')"
      "\<forall>j<k'. \<not> contains_ci d (xs ! j)"
      by (auto dest: spec [of _ "Suc _"])
    ultimately show ?thesis using Suc by (simp add: Cons.IH)
  qed
qed

lemma byte_of_index: "k < 255 \<Longrightarrow> (word_of_nat k :: byte) \<noteq> 255"
proof
  assume k: "k < 255" and e: "(word_of_nat k :: byte) = 255"
  have "unat (word_of_nat k :: byte) = k" using k by (simp add: unat_of_nat)
  with e k show False by simp
qed

lemma write_waypoint_icon_byte:
  "humminbird_write_waypoint icons name time num wpt ! 9 = hum_icon icons (icon_descr wpt)"
  by (simp add: humminbird_write_waypoint_def be_write16_def be_write32_def)

text \<open>
  C4, as the code has it. \<open>b\<close> is the icon byte of the written record (byte 9 after the
  magic's first byte), for an icon table of at most 255 names. Without an icon
  description \<open>b\<close> is 255. With one: the first table entry equal to it, case-insensitively,
  gives its index; without such an entry the first entry contained in the description,
  case-insensitively, gives its index; and with no match at either step \<open>b\<close> is 0, the
  value \<^verbatim>\<open>hum.icon = 0\<close> sets before the second loop (not 255).
\<close>

theorem write_waypoint_icon:
  assumes "length icons \<le> 255"
    and "b = humminbird_write_waypoint icons name time num wpt ! 9"
  shows "(icon_descr wpt = None \<longrightarrow> b = 255) \<and>
     (\<forall>d k. icon_descr wpt = Some d \<longrightarrow> k < length icons \<longrightarrow> compare_ci d (icons ! k) \<longrightarrow>
        (\<forall>j<k. \<not> compare_ci d (icons ! j)) \<longrightarrow> b = word_of_nat k) \<and>
     (\<forall>d k. icon_descr wpt = Some d \<longrightarrow> (\<forall>j<length icons. \<not> compare_ci d (icons ! j)) \<longrightarrow>
        k < length icons \<longrightarrow> contains_ci d (icons ! k) \<longrightarrow>
        (\<forall>j<k. \<not> contains_ci d (icons ! j)) \<longrightarrow> b = word_of_nat k) \<and>
     (\<forall>d. icon_descr wpt = Some d \<longrightarrow> (\<forall>j<length icons. \<not> compare_ci d (icons ! j)) \<longrightarrow>
        (\<forall>j<length icons. \<not> contains_ci d (icons ! j)) \<longrightarrow> b = 0)"
proof (intro conjI allI impI)
  note b = assms(2) [unfolded write_waypoint_icon_byte]
  {
    assume "icon_descr wpt = None"
    then show "b = 255" by (simp add: b hum_icon_def)
  next
    fix d k
    assume d: "icon_descr wpt = Some d" and k: "k < length icons"
      and m: "compare_ci d (icons ! k)" and f: "\<forall>j<k. \<not> compare_ci d (icons ! j)"
    have e: "icon_compare_loop d icons 0 255 = word_of_nat k"
      using icon_compare_loop_first [OF k m f, of 0 255] by simp
    from k assms(1) have "(word_of_nat k :: byte) \<noteq> 255" by (intro byte_of_index) simp
    then show "b = word_of_nat k" by (simp add: b hum_icon_def d e)
  next
    fix d k
    assume d: "icon_descr wpt = Some d" and n: "\<forall>j<length icons. \<not> compare_ci d (icons ! j)"
      and k: "k < length icons" and m: "contains_ci d (icons ! k)"
      and f: "\<forall>j<k. \<not> contains_ci d (icons ! j)"
    have e: "icon_compare_loop d icons 0 255 = 255"
      by (rule icon_compare_loop_none [OF n])
    have c: "icon_contains_loop d icons 0 0 = word_of_nat k"
      using icon_contains_loop_first [OF k m f, of 0 0] by simp
    show "b = word_of_nat k" by (simp add: b hum_icon_def d e c)
  next
    fix d
    assume d: "icon_descr wpt = Some d" and n: "\<forall>j<length icons. \<not> compare_ci d (icons ! j)"
      and c: "\<forall>j<length icons. \<not> contains_ci d (icons ! j)"
    show "b = 0"
      by (simp add: b hum_icon_def d icon_compare_loop_none [OF n]
          icon_contains_loop_none [OF c])
  }
qed

lemma all_less_4: "(\<forall>j<4. P (j::nat)) = (P 0 \<and> P 1 \<and> P 2 \<and> P 3)"
proof -
  have "\<And>j::nat. j < 4 = (j = 0 \<or> j = 1 \<or> j = 2 \<or> j = 3)" by arith
  then show ?thesis by auto
qed

lemma all_less_3: "(\<forall>j<3. P (j::nat)) = (P 0 \<and> P 1 \<and> P 2)"
proof -
  have "\<And>j::nat. j < 3 = (j = 0 \<or> j = 1 \<or> j = 2)" by arith
  then show ?thesis by auto
qed

lemma ex_icons_nth:
  "ex_icons ! 0 = ''Normal''" "ex_icons ! 1 = ''House''" "ex_icons ! 2 = ''Red cross''"
  "ex_icons ! 3 = ''Fish''" "length ex_icons = 4"
  by (simp_all add: ex_icons_def)

lemma ex_icons_compare:
  "compare_ci ''house'' ''House''" "\<not> compare_ci ''house'' ''Normal''"
  "\<not> compare_ci ''Big FISH'' ''Normal''" "\<not> compare_ci ''Big FISH'' ''House''"
  "\<not> compare_ci ''Big FISH'' ''Red cross''" "\<not> compare_ci ''Big FISH'' ''Fish''"
  "\<not> compare_ci ''Foo'' ''Normal''" "\<not> compare_ci ''Foo'' ''House''"
  "\<not> compare_ci ''Foo'' ''Red cross''" "\<not> compare_ci ''Foo'' ''Fish''"
  by (simp_all add: compare_ci_def fold_case_def)

lemma ex_icons_contains:
  "contains_ci ''Big FISH'' ''Fish''"
  "\<not> contains_ci ''Big FISH'' ''Normal''" "\<not> contains_ci ''Big FISH'' ''House''"
  "\<not> contains_ci ''Big FISH'' ''Red cross''"
  "\<not> contains_ci ''Foo'' ''Normal''" "\<not> contains_ci ''Foo'' ''House''"
  "\<not> contains_ci ''Foo'' ''Red cross''" "\<not> contains_ci ''Foo'' ''Fish''"
  by (simp_all add: contains_ci_def fold_case_def)

lemma ex_icons_eval:
  "compare_ci ''house'' (ex_icons ! 1)" "\<not> compare_ci ''house'' (ex_icons ! 0)"
  "contains_ci ''Big FISH'' (ex_icons ! 3)"
  "\<forall>j<length ex_icons. \<not> compare_ci ''Big FISH'' (ex_icons ! j)"
  "\<forall>j<3. \<not> contains_ci ''Big FISH'' (ex_icons ! j)"
  "\<forall>j<length ex_icons. \<not> compare_ci ''Foo'' (ex_icons ! j)"
  "\<forall>j<length ex_icons. \<not> contains_ci ''Foo'' (ex_icons ! j)"
  by (simp_all only: ex_icons_nth all_less_4 all_less_3 ex_icons_compare ex_icons_contains
      simp_thms)

theorem write_waypoint_icon_witness:
  "length ex_icons \<le> 255 \<and>
   compare_ci ''house'' (ex_icons ! 1) \<and> \<not> compare_ci ''house'' (ex_icons ! 0) \<and>
   humminbird_write_waypoint ex_icons [] 0 0 (ex_point\<lparr>icon_descr := Some ''house''\<rparr>) ! 9 = 1 \<and>
   contains_ci ''Big FISH'' (ex_icons ! 3) \<and>
   humminbird_write_waypoint ex_icons [] 0 0 (ex_point\<lparr>icon_descr := Some ''Big FISH''\<rparr>) ! 9
     = 3 \<and>
   humminbird_write_waypoint ex_icons [] 0 0 (ex_point\<lparr>icon_descr := Some ''Foo''\<rparr>) ! 9 = 0 \<and>
   humminbird_write_waypoint ex_icons [] 0 0 (ex_point\<lparr>icon_descr := None\<rparr>) ! 9 = 255"
proof -
  have l: "length ex_icons \<le> 255" by (simp add: ex_icons_nth)
  have j1: "\<forall>j<1. \<not> compare_ci ''house'' (ex_icons ! j)"
    using ex_icons_eval(2) by simp
  have k: "(1::nat) < length ex_icons" "(3::nat) < length ex_icons" by (simp_all add: ex_icons_nth)
  let ?w = "\<lambda>d. ex_point\<lparr>icon_descr := d\<rparr>"
  have s: "\<And>d. icon_descr (?w d) = d" by simp
  have a: "humminbird_write_waypoint ex_icons [] 0 0 (ex_point\<lparr>icon_descr := Some ''house''\<rparr>) ! 9
      = word_of_nat 1"
    by (rule write_waypoint_icon [OF l refl, THEN conjunct2, THEN conjunct1, rule_format,
          OF s k(1) ex_icons_eval(1) j1 [rule_format]])
  have b: "humminbird_write_waypoint ex_icons [] 0 0
      (ex_point\<lparr>icon_descr := Some ''Big FISH''\<rparr>) ! 9 = word_of_nat 3"
    by (rule write_waypoint_icon [OF l refl, THEN conjunct2, THEN conjunct2, THEN conjunct1,
          rule_format, OF s ex_icons_eval(4) [rule_format] k(2) ex_icons_eval(3)
          ex_icons_eval(5) [rule_format]])
  have c: "humminbird_write_waypoint ex_icons [] 0 0 (ex_point\<lparr>icon_descr := Some ''Foo''\<rparr>) ! 9
      = 0"
    by (rule write_waypoint_icon [OF l refl, THEN conjunct2, THEN conjunct2, THEN conjunct2,
          rule_format, OF s ex_icons_eval(6) [rule_format] ex_icons_eval(7) [rule_format]])
  have d: "humminbird_write_waypoint ex_icons [] 0 0 (ex_point\<lparr>icon_descr := None\<rparr>) ! 9 = 255"
    by (rule write_waypoint_icon [OF l refl, THEN conjunct1, rule_format, OF s])
  have w: "(word_of_nat 1 :: byte) = 1" "(word_of_nat 3 :: byte) = 3" by simp_all
  from l ex_icons_eval(1,2,3) a b c d show ?thesis unfolding w by (intro conjI)
qed

text \<open>
  A description that matches no entry at either step is written as icon 0, where the
  claim has 255.
\<close>

theorem write_waypoint_icon_no_match:
  "\<not> list_ex (compare_ci ''Foo'') ex_icons \<and> \<not> list_ex (contains_ci ''Foo'') ex_icons \<and>
   humminbird_write_waypoint ex_icons [] 0 0 (ex_point\<lparr>icon_descr := Some ''Foo''\<rparr>) ! 9 = 0"
proof -
  have n: "\<not> list_ex (compare_ci ''Foo'') ex_icons" "\<not> list_ex (contains_ci ''Foo'') ex_icons"
    by (simp_all add: ex_icons_def ex_icons_compare ex_icons_contains)
  have "hum_icon ex_icons (Some ''Foo'') = 0"
    by (simp add: hum_icon_def ex_icons_def ex_icons_compare ex_icons_contains)
  with n show ?thesis by (simp add: write_waypoint_icon_byte)
qed

subsection \<open>Track records written\<close>

lemma unat_succ16: "unat (n :: uint16) = k \<Longrightarrow> k < 65535 \<Longrightarrow> unat (n + 1) = k + 1"
  by (simp add: unat_word_ariths)

lemma track_deltas_snoc:
  "pre \<noteq> [] \<Longrightarrow> track_deltas (pre @ [w]) = track_deltas pre @ [delta_point (last pre) w]"
  by (induction pre rule: track_deltas.induct) simp_all

lemma length_track_deltas: "length (track_deltas ws) = length ws - 1"
  by (induction ws rule: track_deltas.induct) simp_all

lemma update_bounding_box_sel:
  "num_points (update_bounding_box e n h) = num_points h"
  "trk_name (update_bounding_box e n h) = trk_name h"
  "trk_num (update_bounding_box e n h) = trk_num h"
  "start_east (update_bounding_box e n h) = start_east h"
  "start_north (update_bounding_box e n h) = start_north h"
  by (simp_all add: update_bounding_box_def Let_def)

lemma set_last_time_sel:
  "trk_head (set_last_time w s) = trk_head s"
  "trk_points (set_last_time w s) = trk_points s"
  "last_east (set_last_time w s) = last_east s"
  "last_north (set_last_time w s) = last_north s"
  "fout (set_last_time w s) = fout s"
  by (simp_all add: set_last_time_def split: option.splits)

lemma list_update_first_zero:
  "0 < m \<Longrightarrow> (xs @ replicate m z)[length xs := p] = (xs @ [p]) @ replicate (m - 1) z"
  by (cases m) (simp_all add: list_update_append)

lemma track_cb_first:
  assumes "waypoint_list trk \<noteq> []"
  shows "\<exists>s1. humminbird_track_cb w (humminbird_track_head mkshort trk s) = Inr s1 \<and>
     writer_inv s1 (strncpy_field 20 (mkshort (rte_name trk))) (rte_num trk) [w] \<and>
     fout s1 = fout s"
proof -
  let ?h = "zero_trk_header\<lparr>trk_name := strncpy_field 20 (mkshort (rte_name trk)),
                            trk_num := rte_num trk\<rparr>"
  let ?s0 = "humminbird_track_head mkshort trk s"
  have h: "trk_head ?s0 = Some ?h"
    using assms by (simp add: humminbird_track_head_def)
  have p: "trk_points ?s0 = replicate max_points zero_trk_point"
    using assms by (simp add: humminbird_track_head_def)
  have f: "fout ?s0 = fout s"
    using assms by (simp add: humminbird_track_head_def)
  have n: "unat (num_points ?h) = 0" by (simp add: zero_trk_header_def)
  let ?s1 = "(set_last_time w ?s0)\<lparr>trk_head := Some (?h\<lparr>start_east := east w, start_north := north w,
                                           sw_east := east w, ne_east := east w,
                                           sw_north := north w, ne_north := north w,
                                           num_points := num_points ?h + 1\<rparr>),
                       last_east := east w, last_north := north w\<rparr>"
  have r: "humminbird_track_cb w ?s0 = Inr ?s1"
    unfolding humminbird_track_cb_def h option.case Let_def n by (simp only: simp_thms if_True)
  have i: "writer_inv ?s1 (strncpy_field 20 (mkshort (rte_name trk))) (rte_num trk) [w]"
    unfolding writer_inv_def
    by (simp add: set_last_time_sel p zero_trk_header_def)
  have f1: "fout ?s1 = fout s" by (simp add: set_last_time_sel f)
  from r i f1 show ?thesis by (intro exI [of _ ?s1] conjI)
qed

lemma track_cb_step:
  assumes inv: "writer_inv s name num pre" and le: "length pre \<le> max_points"
  shows "\<exists>s1. humminbird_track_cb w s = Inr s1 \<and> writer_inv s1 name num (pre @ [w]) \<and>
     fout s1 = fout s"
proof -
  from inv obtain h where h: "trk_head s = Some h"
    by (cases "trk_head s") (simp_all add: writer_inv_def)
  from inv h have ne: "pre \<noteq> []" and n: "unat (num_points h) = length pre"
    and nm: "trk_name h = name" and nu: "trk_num h = num"
    and se: "start_east h = east (hd pre)" and sn: "start_north h = north (hd pre)"
    and tp: "trk_points s =
       track_deltas pre @ replicate (max_points - (length pre - 1)) zero_trk_point"
    and la: "last_east s = east (last pre)" and ln: "last_north s = north (last pre)"
    by (simp_all add: writer_inv_def)
  from ne have l0: "0 < length pre" by simp
  then have i0: "unat (num_points h) \<noteq> 0" using n by simp
  let ?s1 = "set_last_time w s"
  let ?j = "length pre - 1"
  have lt: "length (trk_points ?s1) = max_points"
    unfolding set_last_time_sel tp using le l0 by (simp add: length_track_deltas)
  have j: "\<not> length (trk_points ?s1) \<le> unat (num_points h) - 1"
    unfolding lt n using le l0 by (cases pre) simp_all
  let ?p = "\<lparr>deltaeast = ucast (east w - last_east ?s1),
             deltanorth = ucast (north w - last_north ?s1),
             depth = (case depth_cm w of None \<Rightarrow> 0 | Some d \<Rightarrow> d)\<rparr>"
  let ?h1 = "update_bounding_box (east w) (north w) h"
  let ?s2 = "?s1\<lparr>trk_points := (trk_points ?s1)[unat (num_points h) - 1 := ?p],
                 trk_head := Some (?h1\<lparr>num_points := num_points ?h1 + 1\<rparr>),
                 last_east := east w, last_north := north w\<rparr>"
  have r: "humminbird_track_cb w s = Inr ?s2"
    unfolding humminbird_track_cb_def h option.case Let_def
    using i0 j by (simp only: if_False)
  have pd: "\<lparr>deltaeast = ucast (east w - last_east s),
             deltanorth = ucast (north w - last_north s),
             depth = (case depth_cm w of None \<Rightarrow> 0 | Some d \<Rightarrow> d)\<rparr> =
      delta_point (last pre) w"
    unfolding delta_point_def la ln ..
  have m: "0 < max_points - (length pre - 1)" using le l0 by (cases pre) simp_all
  have up: "(trk_points ?s1)[unat (num_points h) - 1 := ?p] =
      track_deltas (pre @ [w]) @ replicate (max_points - (length (pre @ [w]) - 1)) zero_trk_point"
  proof -
    have "(trk_points ?s1)[unat (num_points h) - 1 := ?p] =
        (track_deltas pre @ replicate (max_points - (length pre - 1)) zero_trk_point)
          [length (track_deltas pre) := delta_point (last pre) w]"
      unfolding set_last_time_sel tp n length_track_deltas pd ..
    also have "\<dots> = (track_deltas pre @ [delta_point (last pre) w]) @
        replicate (max_points - (length pre - 1) - 1) zero_trk_point"
      by (rule list_update_first_zero [OF m])
    also have "\<dots> = track_deltas (pre @ [w]) @
        replicate (max_points - (length (pre @ [w]) - 1)) zero_trk_point"
      unfolding track_deltas_snoc [OF ne] using l0 by simp
    finally show ?thesis .
  qed
  have "length pre < 65535" using le by (simp add: sizes)
  then have n1: "unat (num_points h + 1) = length (pre @ [w])"
    using unat_succ16 [OF n] by simp
  have hd: "hd (pre @ [w]) = hd pre" using ne by simp
  have i: "writer_inv ?s2 name num (pre @ [w])"
    unfolding writer_inv_def hd
    using n1 nm nu se sn up by (simp add: update_bounding_box_sel)
  have f: "fout ?s2 = fout s" by (simp add: set_last_time_sel)
  from r i f show ?thesis by (intro exI [of _ ?s2] conjI)
qed

lemma track_cb_overflow:
  assumes inv: "writer_inv s name num pre" and le: "length pre = max_points + 1"
  shows "humminbird_track_cb w s = Inl (Out_of_bounds max_points)"
proof -
  from inv obtain h where h: "trk_head s = Some h"
    by (cases "trk_head s") (simp_all add: writer_inv_def)
  from inv h have n: "unat (num_points h) = length pre"
    and tp: "trk_points s =
       track_deltas pre @ replicate (max_points - (length pre - 1)) zero_trk_point"
    by (simp_all add: writer_inv_def)
  have i0: "unat (num_points h) \<noteq> 0" using n le by simp
  have lt: "length (trk_points (set_last_time w s)) = max_points"
    unfolding set_last_time_sel tp using le by (simp add: length_track_deltas)
  have j: "length (trk_points (set_last_time w s)) \<le> unat (num_points h) - 1"
    unfolding lt n le by simp
  have e: "unat (num_points h) - 1 = max_points" unfolding n le by simp
  show ?thesis
    unfolding humminbird_track_cb_def h option.case Let_def
    using i0 j by (simp only: if_False if_True e)
qed

lemma track_cb_all_inv:
  "writer_inv s name num pre \<Longrightarrow> length pre + length ws \<le> max_points + 1 \<Longrightarrow>
   \<exists>s'. track_cb_all ws s = Inr s' \<and> writer_inv s' name num (pre @ ws) \<and> fout s' = fout s"
proof (induction ws arbitrary: s pre)
  case Nil
  then show ?case by simp
next
  case (Cons w ws)
  from Cons.prems(2) have le: "length pre \<le> max_points" by simp
  from track_cb_step [OF Cons.prems(1) le, of w]
  obtain s1 where r: "humminbird_track_cb w s = Inr s1"
    and i: "writer_inv s1 name num (pre @ [w])" and f: "fout s1 = fout s"
    by (elim exE conjE)
  from Cons.prems(2) have l: "length (pre @ [w]) + length ws \<le> max_points + 1" by simp
  from Cons.IH [OF i l]
  obtain s' where r': "track_cb_all ws s1 = Inr s'"
    and i': "writer_inv s' name num ((pre @ [w]) @ ws)" and f': "fout s' = fout s1"
    by (elim exE conjE)
  have a: "track_cb_all (w # ws) s = Inr s'" using r r' by simp
  have b: "writer_inv s' name num (pre @ w # ws)" using i' by simp
  have c: "fout s' = fout s" using f f' by simp
  from a b c show ?case by (intro exI [of _ s'] conjI)
qed

lemma track_cb_all_overflow:
  "writer_inv s name num pre \<Longrightarrow> length pre \<le> max_points + 1 \<Longrightarrow>
   max_points + 1 < length pre + length ws \<Longrightarrow>
   track_cb_all ws s = Inl (Out_of_bounds max_points)"
proof (induction ws arbitrary: s pre)
  case Nil
  then show ?case by simp
next
  case (Cons w ws)
  show ?case
  proof (cases "length pre = max_points + 1")
    case True
    then show ?thesis using track_cb_overflow [OF Cons.prems(1) True, of w] by simp
  next
    case False
    with Cons.prems(2) have le: "length pre \<le> max_points" by simp
    from track_cb_step [OF Cons.prems(1) le, of w]
    obtain s1 where r: "humminbird_track_cb w s = Inr s1"
      and i: "writer_inv s1 name num (pre @ [w])"
      by (elim exE conjE)
    from le have l1: "length (pre @ [w]) \<le> max_points + 1" by simp
    from Cons.prems(3) have l2: "max_points + 1 < length (pre @ [w]) + length ws" by simp
    show ?thesis using r Cons.IH [OF i l1 l2] by simp
  qed
qed

lemma length_trk_header_bytes: "length (trk_header_bytes h) = 44 + length (trk_name h)"
  by (simp add: trk_header_bytes_def)

lemma length_point_bytes: "length (concat (map trk_point_bytes pts)) = 6 * length pts"
  by (induction pts) (simp_all add: trk_point_bytes_def)

lemma zero_point_bytes:
  "concat (map trk_point_bytes (replicate m zero_trk_point)) = replicate (6 * m) 0"
proof (induction m)
  case 0
  show ?case by simp
next
  case (Suc m)
  have z: "trk_point_bytes zero_trk_point = replicate 6 0"
    by (simp add: trk_point_bytes_def zero_trk_point_def be_write16_def numeral_Bit0 numeral_Bit1)
  have "replicate (6 * Suc m) (0::byte) = replicate 6 0 @ replicate (6 * m) 0"
    by (simp add: replicate_add [symmetric])
  then show ?case using Suc z by simp
qed

lemma track_tail_inv:
  assumes inv: "writer_inv s name num pre"
  shows "\<exists>h. humminbird_track_tail s =
       s\<lparr>fout := fout s @ be_write32 TRK_MAGIC @ trk_header_bytes h @
                  concat (map trk_point_bytes
                    (track_deltas pre @
                     replicate (max_points - (length pre - 1)) zero_trk_point)) @
                  be_write16 0,
         trk_head := None, trk_points := []\<rparr> \<and>
     unat (num_points h) = length pre \<and> trk_name h = name \<and> trk_num h = num \<and>
     start_east h = east (hd pre) \<and> start_north h = north (hd pre) \<and>
     end_east h = east (last pre) \<and> end_north h = north (last pre)"
proof -
  from inv obtain h where h: "trk_head s = Some h"
    by (cases "trk_head s") (simp_all add: writer_inv_def)
  from inv h have n: "unat (num_points h) = length pre"
    and nm: "trk_name h = name" and nu: "trk_num h = num"
    and se: "start_east h = east (hd pre)" and sn: "start_north h = north (hd pre)"
    and tp: "trk_points s =
       track_deltas pre @ replicate (max_points - (length pre - 1)) zero_trk_point"
    and la: "last_east s = east (last pre)" and ln: "last_north s = north (last pre)"
    by (simp_all add: writer_inv_def)
  let ?h1 = "h\<lparr>end_east := last_east s, end_north := last_north s, trk_time := last_time s\<rparr>"
  have r: "humminbird_track_tail s =
       s\<lparr>fout := fout s @ be_write32 TRK_MAGIC @ trk_header_bytes ?h1 @
                  concat (map trk_point_bytes
                    (track_deltas pre @
                     replicate (max_points - (length pre - 1)) zero_trk_point)) @
                  be_write16 0,
         trk_head := None, trk_points := []\<rparr>"
    unfolding humminbird_track_tail_def h option.case Let_def tp ..
  have f: "unat (num_points ?h1) = length pre" "trk_name ?h1 = name" "trk_num ?h1 = num"
    "start_east ?h1 = east (hd pre)" "start_north ?h1 = north (hd pre)"
    "end_east ?h1 = east (last pre)" "end_north ?h1 = north (last pre)"
    using n nm nu se sn la ln by simp_all
  from r f show ?thesis by (intro exI [of _ ?h1] conjI)
qed

text \<open>
  The whole of a track write, for a track of 1 to \<open>max_points + 1\<close> points: the bytes
  appended to the output.
\<close>

lemma write_track_layout:
  assumes w: "waypoint_list trk = wpts" and ne: "wpts \<noteq> []"
    and le: "length wpts \<le> max_points + 1"
  shows "\<exists>s' h. humminbird_write_track mkshort trk s = Inr s' \<and>
     fout s' = fout s @ be_write32 TRK_MAGIC @ trk_header_bytes h @
               concat (map trk_point_bytes
                 (track_deltas wpts @
                  replicate (max_points - (length wpts - 1)) zero_trk_point)) @
               be_write16 0 \<and>
     unat (num_points h) = length wpts \<and>
     trk_name h = strncpy_field 20 (mkshort (rte_name trk)) \<and> trk_num h = rte_num trk \<and>
     start_east h = east (hd wpts) \<and> start_north h = north (hd wpts) \<and>
     end_east h = east (last wpts) \<and> end_north h = north (last wpts)"
proof -
  from ne obtain p ps where c: "wpts = p # ps" by (cases wpts) simp_all
  let ?name = "strncpy_field 20 (mkshort (rte_name trk))"
  have wn: "waypoint_list trk \<noteq> []" using w ne by simp
  from track_cb_first [OF wn, of p mkshort s]
  obtain s1 where r1: "humminbird_track_cb p (humminbird_track_head mkshort trk s) = Inr s1"
    and i1: "writer_inv s1 ?name (rte_num trk) [p]" and f1: "fout s1 = fout s"
    by (elim exE conjE)
  have l: "length [p] + length ps \<le> max_points + 1" using le c by simp
  from track_cb_all_inv [OF i1 l]
  obtain s2 where r2: "track_cb_all ps s1 = Inr s2"
    and i2: "writer_inv s2 ?name (rte_num trk) ([p] @ ps)" and f2: "fout s2 = fout s1"
    by (elim exE conjE)
  have i2': "writer_inv s2 ?name (rte_num trk) wpts" using i2 c by simp
  have all: "track_cb_all (waypoint_list trk) (humminbird_track_head mkshort trk s) = Inr s2"
    unfolding w c using r1 r2 by simp
  from track_tail_inv [OF i2']
  obtain h where t: "humminbird_track_tail s2 =
       s2\<lparr>fout := fout s2 @ be_write32 TRK_MAGIC @ trk_header_bytes h @
                  concat (map trk_point_bytes
                    (track_deltas wpts @
                     replicate (max_points - (length wpts - 1)) zero_trk_point)) @
                  be_write16 0,
         trk_head := None, trk_points := []\<rparr>"
    and hf: "unat (num_points h) = length wpts" "trk_name h = ?name" "trk_num h = rte_num trk"
      "start_east h = east (hd wpts)" "start_north h = north (hd wpts)"
      "end_east h = east (last wpts)" "end_north h = north (last wpts)"
    by (elim exE conjE)
  have r: "humminbird_write_track mkshort trk s = Inr (humminbird_track_tail s2)"
    unfolding humminbird_write_track_def all by simp
  have fo: "fout (humminbird_track_tail s2) =
      fout s @ be_write32 TRK_MAGIC @ trk_header_bytes h @
               concat (map trk_point_bytes
                 (track_deltas wpts @
                  replicate (max_points - (length wpts - 1)) zero_trk_point)) @
               be_write16 0"
    unfolding t using f1 f2 by simp
  from r fo hf show ?thesis
    by (intro exI [of _ "humminbird_track_tail s2"] exI [of _ h] conjI)
qed

lemma write_track_overflow:
  assumes w: "waypoint_list trk = wpts" and gt: "max_points + 1 < length wpts"
  shows "humminbird_write_track mkshort trk s = Inl (Out_of_bounds max_points)"
proof -
  from gt obtain p ps where c: "wpts = p # ps" by (cases wpts) simp_all
  let ?name = "strncpy_field 20 (mkshort (rte_name trk))"
  have wn: "waypoint_list trk \<noteq> []" using w c by simp
  from track_cb_first [OF wn, of p mkshort s]
  obtain s1 where r1: "humminbird_track_cb p (humminbird_track_head mkshort trk s) = Inr s1"
    and i1: "writer_inv s1 ?name (rte_num trk) [p]"
    by (elim exE conjE)
  have l1: "length [p] \<le> max_points + 1" by simp
  have l2: "max_points + 1 < length [p] + length ps" using gt c by simp
  note o = track_cb_all_overflow [OF i1 l1 l2]
  have all: "track_cb_all (waypoint_list trk) (humminbird_track_head mkshort trk s) =
      Inl (Out_of_bounds max_points)"
    unfolding w c using r1 o by simp
  show ?thesis unfolding humminbird_write_track_def all by simp
qed

text \<open>
  C1. A track of 21837 points (one more than the array of 21835 delta records and the
  point kept in the header can hold): \<^verbatim>\<open>humminbird_track_cb\<close> has no check of the count, and
  the callback for the last point stores into \<^verbatim>\<open>trk_points[21835]\<close>, one entry past the
  array of \<^verbatim>\<open>max_points\<close> = 21835 entries. The track is neither split nor rejected.
\<close>

theorem write_track_21837_points:
  "humminbird_write_track (\<lambda>name. name) (ex_track 21837) writer0 =
     Inl (Out_of_bounds 21835) \<and>
   length (waypoint_list (ex_track 21837)) = 21837 \<and> max_points = 21835"
proof -
  have l: "length (waypoint_list (ex_track 21837)) = 21837" by (simp add: ex_track_def)
  have gt: "max_points + 1 < length (waypoint_list (ex_track 21837))"
    unfolding l by (simp add: sizes)
  have m: "max_points = 21835" by (simp add: sizes)
  from write_track_overflow [OF refl gt, of "\<lambda>name. name" writer0] l m
  show ?thesis by simp
qed

text \<open>
  C10, as the code has it. Every new-format track record written for a track of 1 to
  21836 points has the same size of 131080 bytes: the 4-byte magic, the header of 64
  bytes, the whole array of 21835 six-byte point records (the delta of each point after
  the first, then zero records), and two zero bytes.
\<close>

theorem write_track_fixed_size:
  assumes "waypoint_list trk = wpts" and "wpts \<noteq> []" and "length wpts \<le> max_points + 1"
  shows "\<exists>s' h pts. humminbird_write_track mkshort trk s = Inr s' \<and>
     fout s' = fout s @ be_write32 TRK_MAGIC @ trk_header_bytes h @
               concat (map trk_point_bytes pts) @ be_write16 0 \<and>
     length (be_write32 TRK_MAGIC) = 4 \<and> length (trk_header_bytes h) = 64 \<and>
     pts = track_deltas wpts @ replicate (max_points - (length wpts - 1)) zero_trk_point \<and>
     length (track_deltas wpts) = length wpts - 1 \<and>
     length pts = 21835 \<and> length (concat (map trk_point_bytes pts)) = 21835 * 6 \<and>
     concat (map trk_point_bytes (replicate (max_points - (length wpts - 1)) zero_trk_point)) =
       replicate (6 * (max_points - (length wpts - 1))) 0 \<and>
     be_write16 0 = [0, 0] \<and>
     length (fout s') = length (fout s) + 131080 \<and>
     unat (num_points h) = length wpts"
proof -
  let ?pts = "track_deltas wpts @ replicate (max_points - (length wpts - 1)) zero_trk_point"
  from write_track_layout [OF assms, of mkshort s]
  obtain s' h where r: "humminbird_write_track mkshort trk s = Inr s'"
    and f: "fout s' = fout s @ be_write32 TRK_MAGIC @ trk_header_bytes h @
               concat (map trk_point_bytes ?pts) @ be_write16 0"
    and n: "unat (num_points h) = length wpts"
    and nm: "trk_name h = strncpy_field 20 (mkshort (rte_name trk))"
    by (elim exE conjE)
  have a: "length (be_write32 TRK_MAGIC) = 4" by simp
  have b: "length (trk_header_bytes h) = 64"
    unfolding length_trk_header_bytes nm by (simp add: length_strncpy_field)
  have c: "length (track_deltas wpts) = length wpts - 1" by (rule length_track_deltas)
  have d: "length ?pts = 21835"
    using assms(2,3) by (cases wpts) (simp_all add: length_track_deltas sizes)
  have e: "length (concat (map trk_point_bytes ?pts)) = 21835 * 6"
    unfolding length_point_bytes d by simp
  have g: "concat (map trk_point_bytes
        (replicate (max_points - (length wpts - 1)) zero_trk_point)) =
       replicate (6 * (max_points - (length wpts - 1))) 0"
    by (rule zero_point_bytes)
  have i: "be_write16 0 = [0, 0]" by (simp add: be_write16_def)
  have j: "length (fout s') = length (fout s) + 131080"
    unfolding f length_append a b e by simp
  from r f a b c d e g i j n show ?thesis
    by (intro exI [of _ s'] exI [of _ h] exI [of _ ?pts] conjI refl)
qed

theorem write_track_fixed_size_witness:
  "waypoint_list (ex_track 3) = replicate 3 ex_point \<and> replicate 3 ex_point \<noteq> [] \<and>
   length (replicate 3 ex_point) \<le> max_points + 1 \<and>
   (\<exists>s' h pts. humminbird_write_track (\<lambda>name. name) (ex_track 3) writer0 = Inr s' \<and>
      fout s' = be_write32 TRK_MAGIC @ trk_header_bytes h @
                concat (map trk_point_bytes pts) @ [0, 0] \<and>
      length (trk_header_bytes h) = 64 \<and>
      pts = [zero_trk_point, zero_trk_point] @ replicate 21833 zero_trk_point \<and>
      length (fout s') = 131080 \<and> unat (num_points h) = 3)"
proof -
  have a: "waypoint_list (ex_track 3) = replicate 3 ex_point" by (simp add: ex_track_def)
  have b: "replicate 3 ex_point \<noteq> []" by simp
  have c: "length (replicate 3 ex_point) \<le> max_points + 1" by (simp add: sizes)
  from write_track_fixed_size [OF a b c, of "\<lambda>name. name" writer0]
  obtain s' h pts where r: "humminbird_write_track (\<lambda>name. name) (ex_track 3) writer0 = Inr s'"
    and f: "fout s' = fout writer0 @ be_write32 TRK_MAGIC @ trk_header_bytes h @
               concat (map trk_point_bytes pts) @ be_write16 0"
    and hl: "length (trk_header_bytes h) = 64"
    and p: "pts = track_deltas (replicate 3 ex_point) @
              replicate (max_points - (length (replicate 3 ex_point) - 1)) zero_trk_point"
    and w: "be_write16 0 = [0, 0]"
    and l: "length (fout s') = length (fout writer0) + 131080"
    and n: "unat (num_points h) = length (replicate 3 ex_point)"
    by (elim exE conjE)
  have r3: "replicate 3 ex_point = [ex_point, ex_point, ex_point]"
    by (simp add: numeral_3_eq_3)
  have dz: "delta_point ex_point ex_point = zero_trk_point"
    by (simp add: delta_point_def zero_trk_point_def ex_point_def)
  have p': "pts = [zero_trk_point, zero_trk_point] @ replicate 21833 zero_trk_point"
    unfolding p r3 by (simp add: dz sizes)
  have f': "fout s' = be_write32 TRK_MAGIC @ trk_header_bytes h @
                concat (map trk_point_bytes pts) @ [0, 0]"
    unfolding f w by (simp add: writer0_def)
  have l': "length (fout s') = 131080" unfolding l by (simp add: writer0_def)
  have n': "unat (num_points h) = 3" unfolding n by simp
  from r f' hl p' l' n'
  have "\<exists>s' h pts. humminbird_write_track (\<lambda>name. name) (ex_track 3) writer0 = Inr s' \<and>
      fout s' = be_write32 TRK_MAGIC @ trk_header_bytes h @
                concat (map trk_point_bytes pts) @ [0, 0] \<and>
      length (trk_header_bytes h) = 64 \<and>
      pts = [zero_trk_point, zero_trk_point] @ replicate 21833 zero_trk_point \<and>
      length (fout s') = 131080 \<and> unat (num_points h) = 3"
    by (intro exI [of _ s'] exI [of _ h] exI [of _ pts] conjI)
  with a b c show ?thesis by (intro conjI)
qed

text \<open>
  The record written for a track of one point: 131080 bytes, not the 4 + 68 + 21834 * 6 +
  2 = 131078 of a 68-byte header and 21834 records; the header is 64 bytes and the array
  21835 records, all zero here.
\<close>

theorem write_track_not_21834_records:
  "\<exists>s' h. humminbird_write_track (\<lambda>name. name) (ex_track 1) writer0 = Inr s' \<and>
     fout s' = be_write32 TRK_MAGIC @ trk_header_bytes h @ replicate (21835 * 6) 0 @ [0, 0] \<and>
     length (trk_header_bytes h) = 64 \<and> length (trk_header_bytes h) \<noteq> 68 \<and>
     length (fout s') = 131080 \<and> length (fout s') \<noteq> 4 + 68 + 21834 * 6 + 2"
proof -
  have a: "waypoint_list (ex_track 1) = [ex_point]" by (simp add: ex_track_def)
  have b: "[ex_point] \<noteq> []" by simp
  have c: "length [ex_point] \<le> max_points + 1" by simp
  from write_track_layout [OF a b c, of "\<lambda>name. name" writer0]
  obtain s' h where r: "humminbird_write_track (\<lambda>name. name) (ex_track 1) writer0 = Inr s'"
    and f: "fout s' = fout writer0 @ be_write32 TRK_MAGIC @ trk_header_bytes h @
               concat (map trk_point_bytes
                 (track_deltas [ex_point] @
                  replicate (max_points - (length [ex_point] - 1)) zero_trk_point)) @
               be_write16 0"
    and nm: "trk_name h = strncpy_field 20 (rte_name (ex_track 1))"
    by (elim exE conjE)
  have hl: "length (trk_header_bytes h) = 64"
    unfolding length_trk_header_bytes nm by (simp add: length_strncpy_field)
  have z: "concat (replicate 21835 (trk_point_bytes zero_trk_point)) = replicate 131010 0"
    using zero_point_bytes [of 21835] by simp
  have f': "fout s' = be_write32 TRK_MAGIC @ trk_header_bytes h @
      replicate (21835 * 6) 0 @ [0, 0]"
    unfolding f by (simp add: writer0_def sizes z be_write16_def)
  have l: "length (fout s') = 131080" unfolding f' using hl by simp
  have hl': "length (trk_header_bytes h) \<noteq> 68" unfolding hl by simp
  have l': "length (fout s') \<noteq> 4 + 68 + 21834 * 6 + 2" unfolding l by simp
  from r f' hl hl' l l' show ?thesis
    by (intro exI [of _ s'] exI [of _ h] conjI)
qed

end
